theory Spec2Isabelle
  imports Main "HOL-Library.AList" "HOL-Library.List_Lexorder" "HOL-Library.Char_ord"
begin

section \<open>Python values shared by the preparation module\<close>

text \<open>
  An exception is its class name and its \<open>args\<close> tuple (rendered as strings): the
  task executor reads \<open>e.args[0]\<close> when it logs, so the tuple has to be in the model.
\<close>

datatype exn = Exn string "string list"

fun exn_args :: "exn \<Rightarrow> string list" where
  "exn_args (Exn c as) = as"

definition TypeError :: "string \<Rightarrow> exn" where
  "TypeError msg = Exn ''TypeError'' [msg]"

text \<open>The \<open>TypeError\<close> of \<open>len\<close> on a value without a length; the type name is quoted.\<close>

definition no_len :: "string \<Rightarrow> exn" where
  "no_len type_name =
     TypeError (''object of type '' @ [CHR 0x27] @ type_name @ [CHR 0x27] @ '' has no len()'')"

text \<open>
  \<open>then_do\<close> sequences two statements: an exception raised by the first one leaves the
  second one unexecuted.
\<close>

fun then_do :: "exn + 'a \<Rightarrow> ('a \<Rightarrow> exn + 'b) \<Rightarrow> exn + 'b" where
  "then_do (Inl e) f = Inl e"
| "then_do (Inr x) f = f x"

text \<open>
  A Python \<open>slice(start, stop, step)\<close>; each field may be \<open>None\<close>.
\<close>

record 'a slice =
  start :: "'a option"
  stop :: "'a option"
  step :: "'a option"

text \<open>
  Python 3 ordering comparisons: comparing with \<open>None\<close> raises \<open>TypeError\<close>.
\<close>

fun py_gt :: "('a::linorder) option \<Rightarrow> 'a option \<Rightarrow> exn + bool" where
  "py_gt (Some a) (Some b) = Inr (a > b)"
| "py_gt _ _ = Inl (TypeError ''> not supported between instances'')"

fun py_lt :: "('a::linorder) option \<Rightarrow> 'a option \<Rightarrow> exn + bool" where
  "py_lt (Some a) (Some b) = Inr (a < b)"
| "py_lt _ _ = Inl (TypeError ''< not supported between instances'')"

section \<open>Latitude direction\<close>

text \<open>
  \<open>_prepare_lat_direction(lat_direction, ys)\<close>. The flag is read for its truth value.
  \<open>and\<close> is short-circuit: the comparison is evaluated only when the flag has let it.
  The two \<open>if\<close> statements run one after the other, the second one on the slice the
  first one may have replaced. The coordinates are taken from a linearly ordered group
  (\<open>int\<close>, \<open>rat\<close>, \<open>real\<close>); the function only compares them and negates the step.
\<close>

definition prepare_lat_direction ::
  "bool \<Rightarrow> ('a::linordered_ab_group_add) slice \<Rightarrow> exn + 'a slice" where
  "prepare_lat_direction lat_direction ys =
     then_do (if \<not> lat_direction then py_gt (stop ys) (start ys) else Inr False)
       (\<lambda>c1. let ys1 = (if c1
                         then \<lparr>start = stop ys, stop = start ys,
                               step = map_option uminus (step ys)\<rparr>
                         else ys)
             in then_do (if lat_direction then py_lt (stop ys1) (start ys1) else Inr False)
                  (\<lambda>c2. Inr (if c2
                              then \<lparr>start = stop ys1, stop = start ys1, step = step ys1\<rparr>
                              else ys1)))"

section \<open>File names\<close>

text \<open>
  \<open>os.path.splitext\<close> (POSIX): the extension starts at the last dot of the last path
  component, unless that component has only dots before it. \<open>rfind\<close> is \<open>str.rfind\<close>
  for a single character, \<open>-1\<close> when the character does not occur.
\<close>

definition rfind :: "char \<Rightarrow> string \<Rightarrow> int" where
  "rfind c p = (case filter (\<lambda>i. p ! i = c) (rev [0..<length p]) of
                  [] \<Rightarrow> - 1
                | i # _ \<Rightarrow> int i)"

definition splitext :: "string \<Rightarrow> string \<times> string" where
  "splitext p =
     (let sepIndex = rfind CHR ''/'' p;
          dotIndex = rfind CHR ''.'' p
      in if dotIndex > sepIndex
            \<and> list_ex (\<lambda>i. p ! i \<noteq> CHR ''.'') [nat (sepIndex + 1)..<nat dotIndex]
         then (take (nat dotIndex) p, drop (nat dotIndex) p)
         else (p, []))"

text \<open>\<open>"{}".format(i)\<close> for a non-negative integer: its decimal digits.\<close>

fun format_nat :: "nat \<Rightarrow> string" where
  "format_nat n = (if n < 10 then [''0123456789'' ! n]
                   else format_nat (n div 10) @ [''0123456789'' ! (n mod 10)])"

declare format_nat.simps [simp del]

text \<open>
  \<open>glob(base + "-*" + ext)\<close> over the names present in the directory, in listing order:
  a name matches when it is \<open>base\<close>, a dash, a stretch without a path separator, \<open>ext\<close>.
  This is what \<open>glob\<close> does when \<open>base\<close> and \<open>ext\<close> hold none of its metacharacters
  \<open>*\<close>, \<open>?\<close>, \<open>[\<close>; \<open>glob_magic\<close> is \<open>glob.has_magic\<close>, and every statement about the
  merge assumes it false of the names \<open>cutout.datasetfn\<close> gives.
\<close>

definition glob_magic :: "string \<Rightarrow> bool" where
  "glob_magic n = list_ex (\<lambda>ch. ch \<in> set ''*?['') n"

definition glob_match :: "string \<Rightarrow> string \<Rightarrow> string \<Rightarrow> bool" where
  "glob_match base ext n =
     (length base + 1 + length ext \<le> length n
      \<and> take (length base + 1) n = base @ ''-''
      \<and> drop (length n - length ext) n = ext
      \<and> CHR ''/'' \<notin> set (drop (length base + 1) (take (length n - length ext) n)))"

section \<open>The archive directory\<close>

text \<open>
  A period identifier is the tuple \<open>(year, month)\<close> of the \<open>year-month\<close> index.
  The directory \<open>cutout.cutout_dir\<close> is either absent (\<open>None\<close>) or holds files, listed
  as (path, content) pairs with distinct paths; \<open>'d\<close> is the type of a dataset.
  \<open>to_netcdf\<close> creates or overwrites a file, \<open>os.unlink\<close> removes one, \<open>os.rename\<close>
  moves the content to the new path, replacing what was there (POSIX).
\<close>

type_synonym period = "int \<times> int"

type_synonym 'd files = "(string \<times> 'd) list"

type_synonym 'd archive = "'d files option"

definition to_netcdf :: "string \<Rightarrow> 'd \<Rightarrow> 'd files \<Rightarrow> 'd files" where
  "to_netcdf fn ds fs = AList.update fn ds fs"

definition unlink :: "string \<Rightarrow> 'd files \<Rightarrow> 'd files" where
  "unlink fn fs = AList.delete fn fs"

definition rename :: "string \<Rightarrow> string \<Rightarrow> 'd files \<Rightarrow> 'd files" where
  "rename src dst fs =
     (case map_of fs src of
        None \<Rightarrow> fs
      | Some ds \<Rightarrow> if src = dst then fs else AList.update dst ds (AList.delete src fs))"

definition glob :: "string \<Rightarrow> string \<Rightarrow> 'd files \<Rightarrow> string list" where
  "glob base ext fs = filter (glob_match base ext) (map fst fs)"

section \<open>Task executor\<close>

text \<open>
  What a provider function returns: \<open>None\<close>, a list of (period, dataset-or-None) pairs,
  or a generator that yields such pairs and then either finishes or raises.
\<close>

datatype 'd pydata =
    PyNone
  | PyList "(period \<times> 'd option) list"
  | PyGen "(period \<times> 'd option) list" "exn option"

text \<open>
  A task is a dictionary: the provider function under \<open>prepare_func\<close>, the mapping
  \<open>datasetfns\<close> from period to staging path when the orchestrator has added it, and the
  remaining entries \<open>kwargs\<close>. \<open>prepare_func(**task)\<close> receives everything that has not
  been popped, so the function takes the \<open>datasetfns\<close> entry too when it is still there.
\<close>

record ('k, 'd) task =
  prepare_func :: "'k \<Rightarrow> (period \<rightharpoonup> string) option \<Rightarrow> exn + 'd pydata"
  kwargs :: 'k
  datasetfns :: "(period \<rightharpoonup> string) option"

definition KeyError :: "string \<Rightarrow> exn" where
  "KeyError k = Exn ''KeyError'' [k]"

definition IndexError :: "string \<Rightarrow> exn" where
  "IndexError msg = Exn ''IndexError'' [msg]"

definition AssertionError :: exn where
  "AssertionError = Exn ''AssertionError'' []"

definition FileNotFoundError :: "string \<Rightarrow> exn" where
  "FileNotFoundError fn = Exn ''FileNotFoundError'' [''No such file or directory'', fn]"

definition OSError :: "string \<Rightarrow> exn" where
  "OSError msg = Exn ''OSError'' [msg]"

text \<open>
  The handler \<open>except Exception as e: logger.exception(..., e.args[0]); raise e\<close>:
  evaluating \<open>e.args[0]\<close> on an exception without arguments raises \<open>IndexError\<close> inside
  the handler, and that exception leaves the function in place of \<open>e\<close>.
\<close>

definition log_and_reraise :: "exn \<Rightarrow> exn" where
  "log_and_reraise e = (case exn_args e of
                          [] \<Rightarrow> IndexError ''tuple index out of range''
                        | _ \<Rightarrow> e)"

text \<open>
  The loop \<open>for yearmonth, ds in data\<close> of write mode, on the items the iterable
  delivers: a \<open>None\<close> dataset is skipped before the path is looked up; otherwise
  \<open>datasetfns[yearmonth]\<close> raises \<open>KeyError\<close> for an unknown period and \<open>ds.to_netcdf(fn)\<close>
  needs the directory to exist.
\<close>

fun write_items ::
  "(period \<rightharpoonup> string) \<Rightarrow> (period \<times> 'd option) list \<Rightarrow> 'd archive \<Rightarrow> exn option \<times> 'd archive" where
  "write_items dfns [] fs = (None, fs)"
| "write_items dfns ((yearmonth, None) # rest) fs = write_items dfns rest fs"
| "write_items dfns ((yearmonth, Some ds) # rest) fs =
     (case dfns yearmonth of
        None \<Rightarrow> (Some (KeyError ''yearmonth''), fs)
      | Some fn \<Rightarrow>
          (case fs of
             None \<Rightarrow> (Some (FileNotFoundError fn), fs)
           | Some files \<Rightarrow> write_items dfns rest (Some (to_netcdf fn ds files))))"

text \<open>
  Iterating \<open>data\<close>: a list delivers its items; a generator delivers the items it yields
  and then raises if its body raises.
\<close>

fun write_data ::
  "(period \<rightharpoonup> string) \<Rightarrow> 'd pydata \<Rightarrow> 'd archive \<Rightarrow> exn option \<times> 'd archive" where
  "write_data dfns PyNone fs = (Some (TypeError ''NoneType object is not iterable''), fs)"
| "write_data dfns (PyList items) fs = write_items dfns items fs"
| "write_data dfns (PyGen items raised) fs =
     (case write_items dfns items fs of
        (Some e, fs') \<Rightarrow> (Some e, fs')
      | (None, fs') \<Rightarrow> (raised, fs'))"

text \<open>
  \<open>if data is None: data = []\<close>.
\<close>

fun none_to_empty :: "'d pydata \<Rightarrow> 'd pydata" where
  "none_to_empty PyNone = PyList []"
| "none_to_empty data = data"

text \<open>
  \<open>cutout_do_task(task, write_to_file)\<close>. In write mode \<open>datasetfns\<close> is popped (outside
  the \<open>try\<close>, so a missing entry raises \<open>KeyError\<close> unlogged), the items are written and
  the function returns \<open>None\<close> (here \<open>PyNone\<close>). Otherwise it returns \<open>data\<close> as the
  provider delivered it, without iterating it. Every exception of the \<open>try\<close> block goes
  through the handler.
\<close>

definition cutout_do_task ::
  "('k, 'd) task \<Rightarrow> bool \<Rightarrow> 'd archive \<Rightarrow> (exn + 'd pydata) \<times> 'd archive" where
  "cutout_do_task task write_to_file fs =
     (if write_to_file
      then (case datasetfns task of
              None \<Rightarrow> (Inl (KeyError ''datasetfns''), fs)
            | Some dfns \<Rightarrow>
                (case prepare_func task (kwargs task) None of
                   Inl e \<Rightarrow> (Inl (log_and_reraise e), fs)
                 | Inr returned \<Rightarrow>
                     (case write_data dfns (none_to_empty returned) fs of
                        (Some e, fs') \<Rightarrow> (Inl (log_and_reraise e), fs')
                      | (None, fs') \<Rightarrow> (Inr PyNone, fs'))))
      else (case prepare_func task (kwargs task) (datasetfns task) of
              Inl e \<Rightarrow> (Inl (log_and_reraise e), fs)
            | Inr returned \<Rightarrow> (Inr (none_to_empty returned), fs)))"

section \<open>Preparation orchestrator\<close>

text \<open>
  What the orchestrator reads from the cutout: the period index
  \<open>cutout.coords['year-month']\<close>, the method \<open>cutout.datasetfn\<close> (called without an
  argument for the metadata file), the metadata \<open>cutout.meta_clean\<close> written to that file,
  the configuration key \<open>cutout.config\<close> and the table \<open>cutout.weather_data_config\<close>. A
  series holds its task generator; \<open>tasks_func\<close> is applied to the periods it is called
  with (the grid and the other keyword arguments are the same in every call).
  The class \<open>Cutout\<close> is defined outside this module, so \<open>datasetfn\<close> is a parameter.
\<close>

record ('k, 'd) series =
  tasks_func :: "period list \<Rightarrow> exn + ('k, 'd) task list"

record ('k, 'd) cutout =
  yearmonths :: "period list"
  datasetfn :: "period option \<Rightarrow> string"
  meta_clean :: 'd
  config :: string
  weather_data_config :: "string \<rightharpoonup> ('k, 'd) series"

text \<open>
  What is computed outside Python: the result of \<open>_prepare_gebco_height(xs, ys)\<close> (a
  \<open>gdalwarp\<close> subprocess and a file read), \<open>xr.open_mfdataset(fns, combine='by_coords')\<close>
  as a function of the contents of the files it opens, and the assignment
  \<open>ds['height'] = h\<close>.
\<close>

record 'd externals =
  gebco_height_result :: "exn + 'd"
  combine_by_coords :: "'d list \<Rightarrow> exn + 'd"
  assign_height :: "'d \<Rightarrow> 'd \<Rightarrow> 'd"

text \<open>
  What the orchestrator changes: the directory, the flag \<open>cutout.prepared\<close> and the entry
  \<open>cutout.meta['height']\<close>.
\<close>

record 'd world =
  archive :: "'d archive"
  prepared :: bool
  meta_height :: "'d option"

text \<open>
  \<open>datasetfn_with_id(ym)\<close> inside the loop \<open>for i, t in enumerate(tasks)\<close>, and the
  dictionary \<open>{ym: datasetfn_with_id(ym) for ym in yearmonths.tolist()}\<close>.
\<close>

definition datasetfn_with_id :: "('k, 'd) cutout \<Rightarrow> nat \<Rightarrow> period \<Rightarrow> string" where
  "datasetfn_with_id c i ym =
     (case splitext (datasetfn c (Some ym)) of
        (base, ext) \<Rightarrow> base @ ''-'' @ format_nat i @ ext)"

definition staging_map :: "('k, 'd) cutout \<Rightarrow> nat \<Rightarrow> (period \<rightharpoonup> string)" where
  "staging_map c i = map_of (map (\<lambda>ym. (ym, datasetfn_with_id c i ym)) (yearmonths c))"

definition with_datasetfns ::
  "('k, 'd) cutout \<Rightarrow> ('k, 'd) task list \<Rightarrow> ('k, 'd) task list" where
  "with_datasetfns c tasks =
     map (\<lambda>(i, t). t\<lparr>datasetfns := Some (staging_map c i)\<rparr>) (enumerate 0 tasks)"

text \<open>
  \<open>pool = Pool(processes=nprocesses)\<close> and \<open>pool.map(cutout_do_task, tasks)\<close>. The worker
  processes run the task executions side by side, each writing its own files, and the
  pool does not promise the order in which they complete. One run of the pool is
  described by a record: \<open>schedule\<close>, the order in which the executions complete, as
  indices into the task list (an index that is repeated or out of range is ignored, the
  tasks not named complete last, in list order), and \<open>unpickle\<close>, what becomes of an
  exception on its way from the worker to the caller: the exception rebuilt from its
  pickled class and arguments, a \<open>MaybeEncodingError\<close> for an exception that cannot be
  pickled, and \<open>None\<close> for one that cannot be rebuilt in the parent process, in which case
  \<open>pool.map\<close> never returns.
\<close>

record pool =
  schedule :: "nat list"
  unpickle :: "exn \<Rightarrow> exn option"

definition completion_order :: "nat list \<Rightarrow> nat \<Rightarrow> nat list" where
  "completion_order sched n =
     remdups (filter (\<lambda>i. i < n) sched) @ filter (\<lambda>i. i \<notin> set sched) [0..<n]"

definition scheduled :: "pool \<Rightarrow> 'a list \<Rightarrow> 'a list" where
  "scheduled p ts = map (\<lambda>i. ts ! i) (completion_order (schedule p) (length ts))"

text \<open>
  The task executions in the order they complete, up to the first one that raises.
\<close>

fun run_tasks :: "('k, 'd) task list \<Rightarrow> 'd archive \<Rightarrow> exn option \<times> 'd archive" where
  "run_tasks [] fs = (None, fs)"
| "run_tasks (t # ts) fs =
     (case cutout_do_task t True fs of
        (Inl e, fs') \<Rightarrow> (Some e, fs')
      | (Inr _, fs') \<Rightarrow> run_tasks ts fs')"

text \<open>
  \<open>pool.map\<close> returns when every execution has succeeded, raises what has become of the
  first exception to arrive, or does not return (\<open>None\<close>).
\<close>

definition pool_map ::
  "pool \<Rightarrow> ('k, 'd) task list \<Rightarrow> 'd archive \<Rightarrow> (exn option \<times> 'd archive) option" where
  "pool_map p tasks fs =
     (case run_tasks (scheduled p tasks) fs of
        (None, fs') \<Rightarrow> Some (None, fs')
      | (Some e, fs') \<Rightarrow> map_option (\<lambda>e'. (Some e', fs')) (unpickle p e))"

text \<open>
  \<open>xr.open_mfdataset\<close> refuses an empty list of paths with \<open>OSError\<close> before it combines
  anything.
\<close>

definition open_mfdataset :: "'d externals \<Rightarrow> 'd list \<Rightarrow> exn + 'd" where
  "open_mfdataset ext dss =
     (if dss = [] then Inl (OSError ''no files to open'') else combine_by_coords ext dss)"

text \<open>
  The merge loop \<open>for fn in map(cutout.datasetfn, yearmonths.tolist())\<close>. The contents of
  the matching files are read in the order \<open>glob\<close> lists them.
\<close>

definition contents :: "'d files \<Rightarrow> string list \<Rightarrow> 'd list" where
  "contents fs fns = concat (map (\<lambda>fn. case map_of fs fn of None \<Rightarrow> [] | Some ds \<Rightarrow> [ds]) fns)"

fun merge_periods ::
  "'d externals \<Rightarrow> ('k, 'd) cutout \<Rightarrow> bool \<Rightarrow> 'd option \<Rightarrow> period list \<Rightarrow> 'd files
     \<Rightarrow> exn option \<times> 'd files" where
  "merge_periods ext c gebco_height height [] fs = (None, fs)"
| "merge_periods ext c gebco_height height (ym # yms) fs =
     (let fn = datasetfn c (Some ym) in
      case splitext fn of
        (base, ex) \<Rightarrow>
          (let fns = glob base ex fs in
           if length fns = 1 \<and> \<not> gebco_height
           then merge_periods ext c gebco_height height yms (rename (fns ! 0) fn fs)
           else (case open_mfdataset ext (contents fs fns) of
                   Inl e \<Rightarrow> (Some e, fs)
                 | Inr ds \<Rightarrow>
                     (let ds' = (case (gebco_height, height) of
                                   (True, Some h) \<Rightarrow> assign_height ext ds h
                                 | _ \<Rightarrow> ds)
                      in merge_periods ext c gebco_height height yms
                           (fold unlink fns (to_netcdf fn ds' fs))))))"

text \<open>
  \<open>cutout_prepare(cutout, overwrite, nprocesses, gebco_height)\<close> of the \<open>geodata\<close> package,
  on one run \<open>p\<close> of the pool that \<open>nprocesses\<close> sizes. The result is \<open>None\<close> when the
  call does not return. The function returns \<open>True\<close> from its guard and \<open>None\<close> at its end.
  Only the call of \<open>pool.map\<close> is inside the \<open>try\<close>: an exception of the task generator or
  of the merge loop leaves the directory as it is at that moment. The tasks cannot remove
  the directory; were it missing after the pool, \<open>glob\<close> would find nothing and
  \<open>open_mfdataset\<close> would refuse the first period.
\<close>

definition cutout_prepare ::
  "pool \<Rightarrow> 'd externals \<Rightarrow> ('k, 'd) cutout \<Rightarrow> bool \<Rightarrow> bool \<Rightarrow> 'd world
     \<Rightarrow> ((exn + bool option) \<times> 'd world) option" where
  "cutout_prepare p ext c overwrite gebco_height w =
     (if prepared w \<and> \<not> overwrite then Some (Inr (Some True), w)
      else
        (case (if gebco_height then map_sum id Some (gebco_height_result ext)
               else Inr (meta_height w)) of
           Inl e \<Rightarrow> Some (Inl e, w)
         | Inr height \<Rightarrow>
             (let w1 = w\<lparr>meta_height := height\<rparr>;
                  w2 = w1\<lparr>archive := Some (to_netcdf (datasetfn c None) (meta_clean c) [])\<rparr>
              in case weather_data_config c (config c) of
                   None \<Rightarrow> Some (Inl (KeyError (config c)), w2)
                 | Some series \<Rightarrow>
                     (case tasks_func series (yearmonths c) of
                        Inl e \<Rightarrow> Some (Inl e, w2)
                      | Inr tasks \<Rightarrow>
                          (case pool_map p (with_datasetfns c tasks) (archive w2) of
                             None \<Rightarrow> None
                           | Some (Some e, fs) \<Rightarrow> Some (Inl e, w2\<lparr>archive := None\<rparr>)
                           | Some (None, None) \<Rightarrow>
                               (if yearmonths c = []
                                then Some (Inr None, w2\<lparr>archive := None, prepared := True\<rparr>)
                                else Some (Inl (OSError ''no files to open''),
                                           w2\<lparr>archive := None\<rparr>))
                           | Some (None, Some fs) \<Rightarrow>
                               (case merge_periods ext c gebco_height height (yearmonths c) fs of
                                  (Some e, fs') \<Rightarrow> Some (Inl e, w2\<lparr>archive := Some fs'\<rparr>)
                                | (None, fs') \<Rightarrow>
                                    Some (Inr None,
                                          w2\<lparr>archive := Some fs', prepared := True\<rparr>)))))))"

text \<open>
  \<open>cutout_produce_specific_dataseries(cutout, yearmonth, series_name)\<close>. \<open>len(data)\<close>
  raises \<open>TypeError\<close> on a generator; the second assertion reads \<open>data[0]\<close> only after
  the length has been found to be 1. The result \<open>data[0][1]\<close> is a dataset or \<open>None\<close>.
\<close>

definition cutout_produce_specific_dataseries ::
  "('k, 'd) cutout \<Rightarrow> period \<Rightarrow> string \<Rightarrow> 'd archive \<Rightarrow> (exn + 'd option) \<times> 'd archive" where
  "cutout_produce_specific_dataseries c yearmonth series_name fs =
     (case weather_data_config c series_name of
        None \<Rightarrow> (Inl (KeyError series_name), fs)
      | Some series \<Rightarrow>
          (case tasks_func series [yearmonth] of
             Inl e \<Rightarrow> (Inl e, fs)
           | Inr tasks \<Rightarrow>
               if length tasks \<noteq> 1 then (Inl AssertionError, fs)
               else (case cutout_do_task (tasks ! 0) False fs of
                       (Inl e, fs') \<Rightarrow> (Inl e, fs')
                     | (Inr PyNone, fs') \<Rightarrow>
                         (Inl (no_len ''NoneType''), fs')
                     | (Inr (PyGen items raised), fs') \<Rightarrow>
                         (Inl (no_len ''generator''), fs')
                     | (Inr (PyList data), fs') \<Rightarrow>
                         if length data = 1 \<and> fst (data ! 0) = yearmonth
                         then (Inr (snd (data ! 0)), fs')
                         else (Inl AssertionError, fs'))))"

section \<open>Calendar and time axis\<close>

text \<open>
  A timestamp is a number of nanoseconds; midnight of a calendar day is its proleptic
  Gregorian day number (as \<open>datetime.date.toordinal\<close> counts it) times the length of a
  day. \<open>days_in_month\<close> is \<open>calendar.monthrange(year, month)[1]\<close>.
\<close>

type_synonym timestamp = int

definition hour_ns :: int where
  "hour_ns = 3600000000000"

definition day_ns :: int where
  "day_ns = 24 * hour_ns"

definition isleap :: "int \<Rightarrow> bool" where
  "isleap y = (y mod 4 = 0 \<and> (y mod 100 \<noteq> 0 \<or> y mod 400 = 0))"

definition mdays :: "int list" where
  "mdays = [31, 28, 31, 30, 31, 30, 31, 31, 30, 31, 30, 31]"

definition days_in_month :: "int \<Rightarrow> int \<Rightarrow> int" where
  "days_in_month y m = (if m = 2 \<and> isleap y then 29 else mdays ! nat (m - 1))"

definition days_before_year :: "int \<Rightarrow> int" where
  "days_before_year y = (y - 1) * 365 + (y - 1) div 4 - (y - 1) div 100 + (y - 1) div 400"

definition days_before_month :: "int \<Rightarrow> int \<Rightarrow> int" where
  "days_before_month y m = sum_list (map (days_in_month y) [1..m - 1])"

definition ymd2ord :: "int \<Rightarrow> int \<Rightarrow> int \<Rightarrow> int" where
  "ymd2ord y m d = days_before_year y + days_before_month y m + d"

definition midnight :: "int \<Rightarrow> int \<Rightarrow> int \<Rightarrow> timestamp" where
  "midnight y m d = ymd2ord y m d * day_ns"

text \<open>
  A \<open>pd.Timestamp\<close> is a signed 64-bit count of nanoseconds from 1970-01-01 (day number
  719163), the least value being kept for \<open>NaT\<close>: it reaches from 1677-09-21 to
  2262-04-11. A \<open>pd.Timedelta\<close> has the same width. Leaving the range raises
  \<open>OutOfBoundsDatetime\<close> or \<open>OverflowError\<close>.
\<close>

definition in_bounds :: "timestamp \<Rightarrow> bool" where
  "in_bounds t = (- 9223372036854775807 \<le> t - 719163 * day_ns
                  \<and> t - 719163 * day_ns \<le> 9223372036854775807)"

definition ValueError :: "string \<Rightarrow> exn" where
  "ValueError msg = Exn ''ValueError'' [msg]"

definition OutOfBoundsDatetime :: exn where
  "OutOfBoundsDatetime = Exn ''OutOfBoundsDatetime'' [''Out of bounds nanosecond timestamp'']"

definition OverflowError :: exn where
  "OverflowError = Exn ''OverflowError'' [''int too big to convert'']"

definition checked :: "timestamp \<Rightarrow> exn + timestamp" where
  "checked t = (if in_bounds t then Inr t else Inl OutOfBoundsDatetime)"

definition timedelta :: "int \<Rightarrow> exn + int" where
  "timedelta d = (if - 9223372036854775807 \<le> d \<and> d \<le> 9223372036854775807 then Inr d
                  else Inl OverflowError)"

text \<open>
  \<open>pd.Timestamp("{}-{}".format(year, month))\<close> and
  \<open>pd.Timestamp("{}-{}-{}".format(year, month, 1))\<close>, for a year written with four digits
  and a month from 1 to 12: the first instant of that month, when it is in range.
  \<open>year_month_of\<close> gives the year and month of the accepted string. For \<open>None\<close>, a
  month outside 1 to 12 or a year of another width the model answers \<open>ValueError\<close>; the
  properties below are stated for four-digit years only, since the parser may read a
  shorter year as another date.
\<close>

definition year_month_of :: "int option \<Rightarrow> int option \<Rightarrow> exn + int \<times> int" where
  "year_month_of y m =
     (case (y, m) of
        (Some y', Some m') \<Rightarrow>
          if 1000 \<le> y' \<and> y' \<le> 9999 \<and> 1 \<le> m' \<and> m' \<le> 12
          then if in_bounds (midnight y' m' 1) then Inr (y', m') else Inl OutOfBoundsDatetime
          else Inl (ValueError ''could not convert string to Timestamp'')
      | _ \<Rightarrow> Inl (ValueError ''could not convert string to Timestamp''))"

text \<open>
  \<open>month_start + pd.offsets.MonthBegin()\<close> for the first instant of month \<open>m\<close> of year
  \<open>y\<close>: the first instant of the following month.
\<close>

definition MonthBegin :: "int \<Rightarrow> int \<Rightarrow> timestamp" where
  "MonthBegin y m = (if m = 12 then midnight (y + 1) 1 1 else midnight y (m + 1) 1)"

text \<open>
  \<open>range(a, b + 1)\<close> as a list; the arithmetic raises \<open>TypeError\<close> on \<open>None\<close>.
\<close>

definition py_range :: "int option \<Rightarrow> int option \<Rightarrow> exn + int list" where
  "py_range a b =
     (case (a, b) of
        (Some a', Some b') \<Rightarrow> Inr [a'..b']
      | _ \<Rightarrow> Inl (TypeError ''unsupported operand type for NoneType''))"

text \<open>
  \<open>ds.coords['time'].values[[0, 1, -1]]\<close>: numpy checks the indices in turn and raises
  \<open>IndexError\<close> at the first one the array does not have, which is index 0 for an empty
  array and index 1 for an array of one element.
\<close>

definition first_second_last :: "timestamp list \<Rightarrow> exn + timestamp \<times> timestamp \<times> timestamp" where
  "first_second_last ts =
     (if length ts < 2
      then Inl (IndexError (''index '' @ format_nat (length ts)
                            @ '' is out of bounds for axis 0 with size ''
                            @ format_nat (length ts)))
      else Inr (ts ! 0, ts ! 1, ts ! (length ts - 1)))"

text \<open>
  \<open>pd.date_range(start, end, freq)\<close> for a fixed stride: \<open>start\<close>, \<open>start + stride\<close>, ...
  up to \<open>end\<close> inclusive, empty when \<open>end\<close> is before \<open>start\<close>. A stride of zero hours
  makes the generation of the range fail. With \<open>freq='MS'\<close> and a start on a month
  start: the first instants of the months from the start to the end.
\<close>

definition date_range :: "timestamp \<Rightarrow> timestamp \<Rightarrow> int \<Rightarrow> exn + timestamp list" where
  "date_range s e stride =
     (if stride \<le> 0 then Inl (Exn ''ZeroDivisionError'' [''division by zero''])
      else Inr (map (\<lambda>k. s + int k * stride) [0..<nat ((e - s) div stride + 1)]))"

definition date_range_MS :: "int \<Rightarrow> int \<Rightarrow> int \<Rightarrow> int \<Rightarrow> timestamp list" where
  "date_range_MS y0 m0 y1 m1 =
     map (\<lambda>i. midnight (i div 12) (i mod 12 + 1) 1) [y0 * 12 + (m0 - 1)..y1 * 12 + (m1 - 1)]"

section \<open>Metadata resolver\<close>

text \<open>
  The dataset the probe returns and the resolver completes: the \<open>time\<close> coordinate, the
  coordinates \<open>year\<close> and \<open>month\<close>, their stacked product \<open>year-month\<close>, and everything
  else (\<open>attrs\<close>). The time samples of the probe are proper timestamps.
\<close>

record 'a meta =
  time :: "timestamp list"
  year :: "int list"
  month :: "int list"
  year_month :: "period list"
  attrs :: 'a

text \<open>
  \<open>meta_kwds\<close> after \<open>update(dataset_params)\<close>, for the keys the resolver reads: whether
  \<open>tasks_func\<close> is present, the probe under \<open>prepare_func\<close> (called with the grid, the
  normalised latitude slice and \<open>years.stop\<close>, \<open>months.stop\<close>), and \<open>file_granularity\<close>.
\<close>

record ('x, 'y, 'a) meta_kwds =
  has_tasks_func :: bool
  meta_prepare_func :: "('x \<Rightarrow> 'y slice \<Rightarrow> int option \<Rightarrow> int option \<Rightarrow> exn + 'a meta) option"
  file_granularity :: "string option"

text \<open>
  The three branches on \<open>meta_file_granularity\<close>, for \<open>years.stop\<close> and \<open>months.stop\<close>
  denoting month \<open>m1\<close> of year \<open>y1\<close>; any other value of the granularity leaves the
  \<open>time\<close> coordinate of the probe in place. In the \<open>daily\<close> branch the stride is the hours
  component of \<open>second - start\<close>. The statements run in the order of the source.
\<close>

definition time_axis ::
  "string \<Rightarrow> timestamp list \<Rightarrow> int slice \<Rightarrow> int slice \<Rightarrow> int \<Rightarrow> int \<Rightarrow> exn + timestamp list" where
  "time_axis granularity probe_time years months y1 m1 =
     (let month_start = midnight y1 m1 1 in
      if granularity = ''daily''
      then then_do (first_second_last probe_time)
             (\<lambda>(first, second, last).
                then_do (timedelta (first - month_start))
                  (\<lambda>offset_start.
                     then_do (checked (MonthBegin y1 m1))
                       (\<lambda>next_month.
                          then_do (timedelta (last - next_month))
                            (\<lambda>offset_end.
                               then_do (timedelta (second - first))
                                 (\<lambda>delta.
                                    let hours = (delta mod day_ns) div hour_ns
                                    in then_do (year_month_of (start years) (start months))
                                         (\<lambda>(y0, m0).
                                            then_do (checked (midnight y0 m0 1 + offset_start))
                                              (\<lambda>s. then_do (checked (next_month + offset_end))
                                                     (\<lambda>e. date_range s e (hours * hour_ns)))))))))
      else if granularity = ''dailymeans''
      then then_do (year_month_of (start years) (start months))
             (\<lambda>(y0, m0).
                then_do (checked (midnight y1 m1 (days_in_month y1 m1)))
                  (\<lambda>e. date_range (midnight y0 m0 1) e day_ns))
      else if granularity = ''monthly''
      then then_do (year_month_of (start years) (start months))
             (\<lambda>(y0, m0). Inr (date_range_MS y0 m0 y1 m1))
      else Inr probe_time)"

text \<open>
  \<open>cutout_get_meta(cutout, xs, ys, years, months, **dataset_params)\<close>; \<open>lat_direction\<close>
  is \<open>cutout.dataset_module.lat_direction\<close>. \<open>month_start\<close> is built from \<open>years.stop\<close>
  and \<open>months.stop\<close> before the coordinates are assigned.
\<close>

definition cutout_get_meta ::
  "bool \<Rightarrow> ('x, 'y::linordered_ab_group_add, 'a) meta_kwds \<Rightarrow> 'x \<Rightarrow> 'y slice \<Rightarrow> int slice
     \<Rightarrow> int slice option \<Rightarrow> exn + 'a meta" where
  "cutout_get_meta lat_direction kwds xs ys years months_arg =
     (let months = (case months_arg of
                      None \<Rightarrow> \<lparr>start = Some 1, stop = Some 12, step = None\<rparr>
                    | Some m \<Rightarrow> m)
      in then_do (prepare_lat_direction lat_direction ys)
           (\<lambda>ys'.
              if \<not> has_tasks_func kwds then Inl (KeyError ''tasks_func'')
              else case meta_prepare_func kwds of
                     None \<Rightarrow> Inl (KeyError ''prepare_func'')
                   | Some probe \<Rightarrow>
                       then_do (probe xs ys' (stop years) (stop months))
                         (\<lambda>ds. case file_granularity kwds of
                                  None \<Rightarrow> Inl (KeyError ''file_granularity'')
                                | Some granularity \<Rightarrow>
                                    then_do (year_month_of (stop years) (stop months))
                                      (\<lambda>(y1, m1).
                                         then_do (py_range (start years) (stop years))
                                           (\<lambda>ys_coord.
                                              then_do (py_range (start months) (stop months))
                                                (\<lambda>ms_coord.
                                                   then_do (time_axis granularity (time ds) years
                                                              months y1 m1)
                                                     (\<lambda>ts_coord.
                                                        Inr (ds\<lparr>time := ts_coord,
                                                                 year := ys_coord,
                                                                 month := ms_coord,
                                                                 year_month :=
                                                                   List.product ys_coord
                                                                     ms_coord\<rparr>))))))))"

text \<open>
  The vocabulary of the statement about daily means: a calendar day, the order of
  calendar days, and the days from day number \<open>a\<close> to day number \<open>b\<close> as midnights.
\<close>

definition valid_date :: "int \<Rightarrow> int \<Rightarrow> int \<Rightarrow> bool" where
  "valid_date y m d = (1 \<le> m \<and> m \<le> 12 \<and> 1 \<le> d \<and> d \<le> days_in_month y m)"

definition date_le :: "int \<times> int \<times> int \<Rightarrow> int \<times> int \<times> int \<Rightarrow> bool" where
  "date_le a b =
     (case (a, b) of
        ((y, m, d), (y', m', d')) \<Rightarrow> y < y' \<or> (y = y' \<and> (m < m' \<or> (m = m' \<and> d \<le> d'))))"

definition day_range :: "int \<Rightarrow> int \<Rightarrow> timestamp list" where
  "day_range a b = map (\<lambda>k. a * day_ns + int k * day_ns) [0..<nat (b - a + 1)]"

section \<open>A model of the combination by coordinates\<close>

text \<open>
  \<open>xr.open_mfdataset(fns, combine='by_coords')\<close> belongs to the xarray library. To run the
  merge on datasets that have coordinates, the behaviour the library documents for
  \<open>combine_by_coords\<close> is written out here for one-dimensional datasets.
\<close>



















section \<open>Final files and staging files\<close>

text \<open>
  The vocabulary of the post-condition of the merge. A name is a staging file of the final
  file \<open>fn\<close> when the pattern \<open>base + "-*" + ext\<close> built from \<open>fn\<close> matches it.
  \<open>file_names\<close> is the set of names in the directory. A task is \<open>staged\<close> when the
  orchestrator has given it its \<open>datasetfns\<close>. \<open>names_separate\<close> says of
  \<open>cutout.datasetfn\<close> that neither the metadata file nor a final file of a period has the
  form of a staging file of a period, and \<open>names_literal\<close> that the final names hold no
  \<open>glob\<close> metacharacter.
\<close>

definition is_staging_of :: "string \<Rightarrow> string \<Rightarrow> bool" where
  "is_staging_of fn n = (case splitext fn of (base, ex) \<Rightarrow> glob_match base ex n)"

definition file_names :: "'d files \<Rightarrow> string set" where
  "file_names fs = fst ` set fs"

definition staged :: "('k, 'd) cutout \<Rightarrow> ('k, 'd) task \<Rightarrow> bool" where
  "staged c t = (\<exists>i. datasetfns t = Some (staging_map c i))"

definition staging_names :: "('k, 'd) cutout \<Rightarrow> string set" where
  "staging_names c = {n. \<exists>ym \<in> set (yearmonths c). is_staging_of (datasetfn c (Some ym)) n}"

definition names_separate :: "('k, 'd) cutout \<Rightarrow> bool" where
  "names_separate c =
     list_all (\<lambda>p. \<not> is_staging_of (datasetfn c (Some p)) (datasetfn c None)
                  \<and> list_all (\<lambda>q. \<not> is_staging_of (datasetfn c (Some p)) (datasetfn c (Some q)))
                       (yearmonths c))
       (yearmonths c)"

definition names_literal :: "('k, 'd) cutout \<Rightarrow> bool" where
  "names_literal c = list_all (\<lambda>p. \<not> glob_magic (datasetfn c (Some p))) (yearmonths c)"

section \<open>A small cutout used to run the definitions\<close>

text \<open>
  Two months of 2011, files named \<open>201101.nc\<close>, \<open>201102.nc\<close> and \<open>meta.nc\<close>; datasets are
  numbers. The series \<open>monthly\<close> has one task per month, each a generator yielding one
  result; \<open>failing\<close> has a second task that raises; \<open>listed\<close> has one task per
  requested period that returns a one-element list; \<open>lazy\<close> has one task per requested
  period that returns a generator of two results; \<open>paired\<close> has two tasks that each
  deliver a dataset for both months; in \<open>both_fail\<close> two tasks raise; in \<open>unpicklable\<close>
  the task raises an exception that cannot be pickled, in \<open>unbuildable\<close> one whose class
  cannot be called with its pickled arguments. The pool of the example completes the
  tasks in the order it is given.
\<close>

definition example_datasetfn :: "period option \<Rightarrow> string" where
  "example_datasetfn ym =
     (case ym of
        None \<Rightarrow> ''meta.nc''
      | Some (y, m) \<Rightarrow> format_nat (nat y) @ (if m < 10 then ''0'' else []) @ format_nat (nat m) @ ''.nc'')"

definition example_task :: "exn + nat pydata \<Rightarrow> (unit, nat) task" where
  "example_task result = \<lparr>prepare_func = (\<lambda>k d. result), kwargs = (), datasetfns = None\<rparr>"

definition example_config :: "string \<rightharpoonup> (unit, nat) series" where
  "example_config =
     [''monthly'' \<mapsto> \<lparr>tasks_func = (\<lambda>yms. Inr (map (\<lambda>ym. example_task (Inr (PyGen [(ym, Some 7)] None))) yms))\<rparr>,
      ''failing'' \<mapsto> \<lparr>tasks_func = (\<lambda>yms. Inr [example_task (Inr (PyList [((2011, 1), Some 7)])),
                                                  example_task (Inl (Exn ''ValueError'' [''bad month'']))])\<rparr>,
      ''listed'' \<mapsto> \<lparr>tasks_func = (\<lambda>yms. Inr (map (\<lambda>ym. example_task (Inr (PyList [(ym, Some 7)]))) yms))\<rparr>,
      ''lazy'' \<mapsto> \<lparr>tasks_func = (\<lambda>yms. Inr (map (\<lambda>ym. example_task (Inr (PyGen [(ym, Some 7), (ym, Some 8)] None))) yms))\<rparr>,
      ''paired'' \<mapsto> \<lparr>tasks_func = (\<lambda>yms. Inr [example_task (Inr (PyList [((2011, 1), Some 3), ((2011, 2), Some 4)])),
                                                 example_task (Inr (PyGen [((2011, 1), Some 10), ((2011, 2), Some 20)] None))])\<rparr>,
      ''both_fail'' \<mapsto> \<lparr>tasks_func = (\<lambda>yms. Inr [example_task (Inl (Exn ''ValueError'' [''first in list''])),
                                                    example_task (Inl (Exn ''KeyError'' [''second in list'']))])\<rparr>,
      ''unpicklable'' \<mapsto> \<lparr>tasks_func = (\<lambda>yms. Inr [example_task (Inl (Exn ''Unpicklable'' [''open handle'']))])\<rparr>,
      ''unbuildable'' \<mapsto> \<lparr>tasks_func = (\<lambda>yms. Inr [example_task (Inl (Exn ''Unbuildable'' [''message'']))])\<rparr>]"

definition example_pool :: "nat list \<Rightarrow> pool" where
  "example_pool order =
     \<lparr>schedule = order,
      unpickle = (\<lambda>e. case e of
                        Exn cls args \<Rightarrow>
                          if cls = ''Unpicklable''
                          then Some (Exn ''MaybeEncodingError'' [''Error sending result''])
                          else if cls = ''Unbuildable'' then None
                          else Some e)\<rparr>"

definition example_cutout :: "string \<Rightarrow> (unit, nat) cutout" where
  "example_cutout cfg =
     \<lparr>yearmonths = [(2011, 1), (2011, 2)], datasetfn = example_datasetfn, meta_clean = 0,
      config = cfg, weather_data_config = example_config\<rparr>"

definition example_externals :: "nat externals" where
  "example_externals =
     \<lparr>gebco_height_result = Inr 1, combine_by_coords = (\<lambda>dss. Inr (sum_list dss)),
      assign_height = (\<lambda>ds h. ds + h)\<rparr>"

definition example_world :: "bool \<Rightarrow> nat world" where
  "example_world p = \<lparr>archive = Some [(''meta.nc'', 0), (''201101.nc'', 5)], prepared = p,
                      meta_height = None\<rparr>"

text \<open>
  A metadata configuration whose probe returns the given time samples, and the request
  for the year 2011.
\<close>

definition example_kwds :: "string \<Rightarrow> timestamp list \<Rightarrow> (unit, int, unit) meta_kwds" where
  "example_kwds granularity samples =
     \<lparr>has_tasks_func = True,
      meta_prepare_func =
        Some (\<lambda>xs ys y m. Inr \<lparr>time = samples, year = [], month = [], year_month = [],
                                attrs = ()\<rparr>),
      file_granularity = Some granularity\<rparr>"

definition example_years :: "int slice" where
  "example_years = \<lparr>start = Some 2011, stop = Some 2011, step = None\<rparr>"

definition example_ys :: "int slice" where
  "example_ys = \<lparr>start = Some 40, stop = Some 70, step = None\<rparr>"








section \<open>Properties\<close>

lemma prepare_lat_direction_fixed:
  "prepare_lat_direction ld ys = Inr ys' \<Longrightarrow> prepare_lat_direction ld ys' = Inr ys'"
  by (cases "start ys"; cases "stop ys"; cases ld)
     (auto simp: prepare_lat_direction_def Let_def split: if_splits)

text \<open>
  C10. The latitude-direction normalisation is idempotent: running it on its own result
  gives that result again, for either flag and every slice. Where the first run raises
  (an endpoint is \<open>None\<close>) there is no result to run it on, and the composition raises
  the same exception.
\<close>

theorem prepare_lat_direction_idempotent:
  "then_do (prepare_lat_direction ld ys) (prepare_lat_direction ld)
     = prepare_lat_direction ld ys"
  by (cases "prepare_lat_direction ld ys") (simp_all add: prepare_lat_direction_fixed)

theorem prepare_lat_direction_idempotent_witness:
  "then_do (prepare_lat_direction False \<lparr>start = Some (40::int), stop = Some 70, step = Some 1\<rparr>)
     (prepare_lat_direction False)
   = Inr \<lparr>start = Some 70, stop = Some 40, step = Some (- 1)\<rparr>"
  using prepare_lat_direction_idempotent
    [of False "\<lparr>start = Some (40::int), stop = Some 70, step = Some 1\<rparr>"]
  by (simp add: prepare_lat_direction_def)

section \<open>Task executor: results without a dataset\<close>

lemma write_items_skips_none:
  "write_items dfns (before @ (ym, None) # after) fs = write_items dfns (before @ after) fs"
proof (induction before arbitrary: fs)
  case Nil
  show ?case by simp
next
  case (Cons item rest)
  obtain p ds where item: "item = (p, ds)" by (cases item)
  show ?case
  proof (cases ds)
    case None
    with item Cons show ?thesis by simp
  next
    case (Some d)
    with item Cons show ?thesis by (simp split: option.splits)
  qed
qed

text \<open>
  C9. In write mode, a result \<open>(ym, None)\<close> among the results of a task is skipped without
  raising: the executor returns the same value and leaves the same directory as for the
  task that delivers the other results only, so this result creates no staging file and the
  results after it are processed. This holds for a list and for a generator.
\<close>

theorem cutout_do_task_skips_none:
  assumes "prepare_func t (kwargs t) None = Inr data"
    and "data = PyList (before @ (ym, None) # after) \<and> data' = PyList (before @ after)
         \<or> data = PyGen (before @ (ym, None) # after) raised
            \<and> data' = PyGen (before @ after) raised"
  shows "cutout_do_task t True fs
         = cutout_do_task (t\<lparr>prepare_func := (\<lambda>k d. Inr data')\<rparr>) True fs"
  using assms
  by (auto simp: cutout_do_task_def write_items_skips_none split: option.splits)

theorem cutout_do_task_skips_none_witness:
  "cutout_do_task (example_task (Inr (PyList [((2011, 1), None), ((2011, 2), Some 3)]))
                     \<lparr>datasetfns := Some [(2011, 2) \<mapsto> ''201102-0.nc'']\<rparr>) True (Some [])
   = (Inr PyNone, Some [(''201102-0.nc'', 3)])"
proof -
  let ?t = "example_task (Inr (PyList [((2011, 1), None), ((2011, 2), Some 3)]))
              \<lparr>datasetfns := Some [(2011, 2) \<mapsto> ''201102-0.nc'']\<rparr>"
  have "cutout_do_task ?t True (Some [])
        = cutout_do_task (?t\<lparr>prepare_func := (\<lambda>k d. Inr (PyList [((2011, 2), Some 3)]))\<rparr>)
            True (Some [])"
    using cutout_do_task_skips_none
      [of ?t "PyList [((2011, 1), None), ((2011, 2), Some 3)]" "[]" "(2011, 1)"
          "[((2011, 2), Some 3)]" "PyList [((2011, 2), Some 3)]" None "Some []"]
    by (simp add: example_task_def)
  then show ?thesis
    by (simp add: cutout_do_task_def example_task_def to_netcdf_def)
qed

section \<open>Query mode\<close>

lemma cutout_do_task_query_keeps_archive:
  "snd (cutout_do_task t False fs) = fs"
  by (simp add: cutout_do_task_def split: sum.splits)

text \<open>
  C6. When the single-period query returns a value \<open>r\<close>, the series has produced exactly
  one task, that task has delivered the one-element list \<open>[(yearmonth, r)]\<close>, so \<open>r\<close> is the
  dataset paired with the requested period, and the directory is as it was before the call.
\<close>

theorem cutout_produce_specific_dataseries_result:
  assumes "cutout_produce_specific_dataseries c yearmonth series_name fs = (Inr r, fs')"
  shows "fs' = fs
         \<and> (\<exists>series t. weather_data_config c series_name = Some series
               \<and> tasks_func series [yearmonth] = Inr [t]
               \<and> cutout_do_task t False fs = (Inr (PyList [(yearmonth, r)]), fs))"
proof -
  from assms obtain series where s: "weather_data_config c series_name = Some series"
    by (auto simp: cutout_produce_specific_dataseries_def split: option.splits)
  from assms s obtain tasks where ts: "tasks_func series [yearmonth] = Inr tasks"
    by (auto simp: cutout_produce_specific_dataseries_def split: sum.splits)
  from assms s ts have len: "length tasks = 1"
    by (auto simp: cutout_produce_specific_dataseries_def split: if_splits)
  then obtain t where t: "tasks = [t]"
    by (cases tasks) auto
  obtain res fs1 where run: "cutout_do_task t False fs = (res, fs1)"
    by (cases "cutout_do_task t False fs")
  have fs1: "fs1 = fs"
    using cutout_do_task_query_keeps_archive [of t fs] run by simp
  from assms s ts t run obtain data where
    res: "res = Inr (PyList data)" and
    ok: "length data = 1 \<and> fst (data ! 0) = yearmonth" and
    out: "r = snd (data ! 0)" and same: "fs' = fs1"
    by (auto simp: cutout_produce_specific_dataseries_def
             split: sum.splits pydata.splits if_splits)
  from ok obtain item where "data = [item]"
    by (cases data) auto
  with ok out have "data = [(yearmonth, r)]"
    by (cases item) auto
  with s ts t run res fs1 same show ?thesis by simp
qed

theorem cutout_produce_specific_dataseries_result_witness:
  "cutout_produce_specific_dataseries (example_cutout ''listed'') (2011, 2) ''listed''
     (Some [(''meta.nc'', 0)]) = (Inr (Some 7), Some [(''meta.nc'', 0)])
   \<and> cutout_do_task (example_task (Inr (PyList [((2011, 2), Some 7)]))) False
       (Some [(''meta.nc'', 0)])
     = (Inr (PyList [((2011, 2), Some 7)]), Some [(''meta.nc'', 0)])"
proof -
  have run: "cutout_produce_specific_dataseries (example_cutout ''listed'') (2011, 2) ''listed''
               (Some [(''meta.nc'', 0)]) = (Inr (Some 7), Some [(''meta.nc'', 0)])"
    by (simp add: cutout_produce_specific_dataseries_def example_cutout_def example_config_def
                  example_task_def cutout_do_task_def)
  from cutout_produce_specific_dataseries_result [OF run]
  show ?thesis using run
    by (auto simp: example_cutout_def example_config_def)
qed

section \<open>Query mode: the cardinality checks\<close>

lemma cutout_do_task_query_returns:
  "prepare_func t (kwargs t) (datasetfns t) = Inr returned
     \<Longrightarrow> cutout_do_task t False fs = (Inr (none_to_empty returned), fs)"
  by (simp add: cutout_do_task_def)

text \<open>
  For a provider that returns \<open>None\<close> or a list, the two \<open>assert\<close> statements do what the
  specification asks: a number of tasks other than one, and anything other than exactly
  one result for the requested period, end in \<open>AssertionError\<close> (the specification's
  \<open>InvariantViolationError\<close>), and the directory is not touched.
\<close>

lemma cutout_produce_specific_dataseries_sized:
  assumes "weather_data_config c series_name = Some series"
    and "tasks_func series [yearmonth] = Inr tasks"
    and "length tasks \<noteq> 1
         \<or> tasks = [t] \<and> prepare_func t (kwargs t) (datasetfns t) = Inr PyNone
         \<or> tasks = [t] \<and> prepare_func t (kwargs t) (datasetfns t) = Inr (PyList results)
            \<and> \<not> (length results = 1 \<and> fst (results ! 0) = yearmonth)"
  shows "cutout_produce_specific_dataseries c yearmonth series_name fs = (Inl AssertionError, fs)"
  using assms
  by (auto simp: cutout_produce_specific_dataseries_def cutout_do_task_query_returns)

text \<open>
  For a provider that is a generator, \<open>cutout_do_task\<close> hands the generator back without
  iterating it, and \<open>len(data)\<close> raises \<open>TypeError\<close> whatever the generator would yield.
\<close>

lemma cutout_produce_specific_dataseries_lazy:
  assumes "weather_data_config c series_name = Some series"
    and "tasks_func series [yearmonth] = Inr [t]"
    and "prepare_func t (kwargs t) (datasetfns t) = Inr (PyGen results raised)"
  shows "cutout_produce_specific_dataseries c yearmonth series_name fs
         = (Inl (no_len ''generator''), fs)"
  using assms
  by (simp add: cutout_produce_specific_dataseries_def cutout_do_task_query_returns)

text \<open>
  C5. The claim asks for the invariant failure whenever the task yields anything other
  than exactly one result for the requested period. The series \<open>lazy\<close> has one task whose
  provider is a generator yielding two results for the requested period: the query does
  not end in the \<open>AssertionError\<close> of the cardinality check but in the \<open>TypeError\<close> of
  \<open>len\<close>, raised before any result has been counted.
\<close>

theorem cutout_produce_specific_dataseries_generator:
  "cutout_produce_specific_dataseries (example_cutout ''lazy'') (2011, 1) ''lazy'' None
     = (Inl (Exn ''TypeError'' [''object of type '' @ [CHR 0x27] @ ''generator'' @ [CHR 0x27]
                                 @ '' has no len()'']), None)
   \<and> Exn ''TypeError'' [''object of type '' @ [CHR 0x27] @ ''generator'' @ [CHR 0x27]
                         @ '' has no len()''] \<noteq> AssertionError"
  by (simp add: cutout_produce_specific_dataseries_def example_cutout_def example_config_def
        example_task_def cutout_do_task_def no_len_def TypeError_def AssertionError_def)

section \<open>Orchestrator: the guard\<close>

text \<open>
  C2, as the specification states it, asks for an exception. On a prepared cutout with
  \<open>overwrite=False\<close> the function returns \<open>True\<close> instead.
\<close>

theorem cutout_prepare_guard_counterexample:
  "map_option fst (cutout_prepare (example_pool []) example_externals (example_cutout ''monthly'')
                     False False (example_world True)) = Some (Inr (Some True))"
  by (simp add: cutout_prepare_def example_world_def)

text \<open>
  C2, amended. On a cutout that is marked prepared, \<open>cutout_prepare\<close> with
  \<open>overwrite=False\<close> returns \<open>True\<close> without raising, and leaves the directory, its
  contents, the flag and the metadata as they were.
\<close>

theorem cutout_prepare_guard:
  assumes "prepared w"
  shows "cutout_prepare p ext c False gebco_height w = Some (Inr (Some True), w)"
  using assms by (simp add: cutout_prepare_def)

theorem cutout_prepare_guard_witness:
  "prepared (example_world True)
   \<and> cutout_prepare (example_pool [1, 0]) example_externals (example_cutout ''failing'') False True
       (example_world True)
     = Some (Inr (Some True),
             \<lparr>archive = Some [(''meta.nc'', 0), (''201101.nc'', 5)], prepared = True,
              meta_height = None\<rparr>)"
proof -
  have p: "prepared (example_world True)"
    by (simp add: example_world_def)
  from cutout_prepare_guard
         [OF p, of "example_pool [1, 0]" example_externals "example_cutout ''failing''" True]
  show ?thesis using p by (simp add: example_world_def)
qed

section \<open>The example cutout, evaluated\<close>

lemma example_splitext:
  "splitext ''201101.nc'' = (''201101'', ''.nc'')"
  "splitext ''201102.nc'' = (''201102'', ''.nc'')"
  by code_simp+

lemma example_final_names:
  "example_datasetfn (Some (2011, 1)) = ''201101.nc''"
  "example_datasetfn (Some (2011, 2)) = ''201102.nc''"
  "example_datasetfn None = ''meta.nc''"
  by code_simp+

lemma example_format:
  "format_nat 0 = ''0''" "format_nat 1 = ''1''" "format_nat (Suc 0) = ''1''"
  by code_simp+

lemma example_staging_names:
  "staging_map (example_cutout cfg) i (2011, 1) = Some (''201101-'' @ format_nat i @ ''.nc'')"
  "staging_map (example_cutout cfg) i (2011, 2) = Some (''201102-'' @ format_nat i @ ''.nc'')"
  by (simp_all add: staging_map_def example_cutout_def datasetfn_with_id_def
        example_final_names example_splitext)

lemma example_cutout_fields:
  "datasetfn (example_cutout cfg) = example_datasetfn"
  "meta_clean (example_cutout cfg) = 0"
  "yearmonths (example_cutout cfg) = [(2011, 1), (2011, 2)]"
  "config (example_cutout cfg) = cfg"
  "weather_data_config (example_cutout cfg) = example_config"
  by (simp_all add: example_cutout_def)

lemma enumerate_two: "enumerate 0 [a, b] = [(0, a), (Suc 0, b)]"
  by (simp add: enumerate_eq_zip upt_conv_Cons)

lemma example_completion_order:
  "completion_order [] (Suc 0) = [0]"
  "completion_order [] (Suc (Suc 0)) = [0, 1]"
  "completion_order [1, 0] (Suc (Suc 0)) = [1, 0]"
  "completion_order [Suc 0, 0] (Suc (Suc 0)) = [1, 0]"
  by code_simp+

lemma example_scheduled:
  "scheduled (example_pool []) [a] = [a]"
  "scheduled (example_pool []) [a, b] = [a, b]"
  "scheduled (example_pool [1, 0]) [a, b] = [b, a]"
  "scheduled (example_pool [Suc 0, 0]) [a, b] = [b, a]"
  by (simp_all add: scheduled_def example_pool_def example_completion_order)


section \<open>Orchestrator: a task that raises\<close>






section \<open>Merge stage: final files and staging files\<close>

lemma format_nat_digits: "set (format_nat n) \<subseteq> set ''0123456789''"
proof (induction n rule: format_nat.induct)
  case (1 n)
  have digit: "\<And>k. k < 10 \<Longrightarrow> ''0123456789'' ! k \<in> set ''0123456789''"
    by (rule nth_mem) simp
  show ?case
  proof (cases "n < 10")
    case True
    with digit [of n] show ?thesis
      by (subst format_nat.simps) simp
  next
    case False
    have "n mod 10 < 10" by simp
    with False 1 digit [of "n mod 10"] show ?thesis
      by (subst format_nat.simps) simp
  qed
qed

lemma format_nat_no_sep: "CHR ''/'' \<notin> set (format_nat n)"
  using format_nat_digits [of n] by auto

lemma glob_match_staging:
  "CHR ''/'' \<notin> set x \<Longrightarrow> glob_match base ex (base @ ''-'' @ x @ ex)"
  by (simp add: glob_match_def)

lemma datasetfn_with_id_is_staging:
  "is_staging_of (datasetfn c (Some ym)) (datasetfn_with_id c i ym)"
proof -
  obtain base ex where "splitext (datasetfn c (Some ym)) = (base, ex)"
    by (cases "splitext (datasetfn c (Some ym))")
  then show ?thesis
    using glob_match_staging [OF format_nat_no_sep, of base ex i]
    by (simp add: is_staging_of_def datasetfn_with_id_def)
qed

lemma set_glob:
  "splitext fn = (base, ex) \<Longrightarrow> set (glob base ex fs) = {n \<in> file_names fs. is_staging_of fn n}"
  by (auto simp: glob_def is_staging_of_def file_names_def)

lemma distinct_glob:
  "distinct (map fst fs) \<Longrightarrow> distinct (glob base ex fs)"
  by (simp add: glob_def)

lemma names_to_netcdf: "file_names (to_netcdf fn ds fs) = insert fn (file_names fs)"
  by (simp add: to_netcdf_def file_names_def dom_update)

lemma distinct_to_netcdf:
  "distinct (map fst fs) \<Longrightarrow> distinct (map fst (to_netcdf fn ds fs))"
  by (simp add: to_netcdf_def distinct_update)

lemma names_unlink: "file_names (unlink fn fs) = file_names fs - {fn}"
  by (simp add: unlink_def file_names_def AList.delete_keys flip: set_map)

lemma distinct_unlink:
  "distinct (map fst fs) \<Longrightarrow> distinct (map fst (unlink fn fs))"
  by (simp add: unlink_def distinct_delete)

lemma names_fold_unlink: "file_names (fold unlink fns fs) = file_names fs - set fns"
  by (induction fns arbitrary: fs) (auto simp: names_unlink)

lemma distinct_fold_unlink:
  "distinct (map fst fs) \<Longrightarrow> distinct (map fst (fold unlink fns fs))"
  by (induction fns arbitrary: fs) (simp_all add: distinct_unlink)

lemma names_rename:
  "src \<in> file_names fs \<Longrightarrow> src \<noteq> dst
     \<Longrightarrow> file_names (rename src dst fs) = insert dst (file_names fs - {src})"
proof -
  assume a: "src \<in> file_names fs" and b: "src \<noteq> dst"
  from a obtain ds where "map_of fs src = Some ds"
    by (auto simp: file_names_def dest: weak_map_of_SomeI)
  with b show ?thesis
    using names_to_netcdf [of dst ds "unlink src fs"] names_unlink [of src fs]
    by (simp add: rename_def to_netcdf_def unlink_def)
qed

lemma distinct_rename:
  "distinct (map fst fs) \<Longrightarrow> distinct (map fst (rename src dst fs))"
  by (simp add: rename_def distinct_update distinct_delete split: option.splits)

lemma staging_map_range:
  "staging_map c i ym = Some n
     \<Longrightarrow> ym \<in> set (yearmonths c) \<and> n = datasetfn_with_id c i ym"
  by (auto simp: staging_map_def map_of_map_restrict restrict_map_def split: if_splits)

lemma with_datasetfns_staged:
  "t \<in> set (with_datasetfns c tasks) \<Longrightarrow> staged c t"
  by (auto simp: with_datasetfns_def staged_def)

lemma write_items_names:
  assumes "write_items (staging_map c i) items (Some fs) = (r, a)"
    and "distinct (map fst fs)"
  shows "\<exists>fs'. a = Some fs' \<and> distinct (map fst fs')
           \<and> file_names fs \<subseteq> file_names fs'
           \<and> file_names fs' \<subseteq> file_names fs \<union> staging_names c"
  using assms
proof (induction items arbitrary: fs)
  case Nil
  then show ?case by auto
next
  case (Cons item rest)
  obtain p ds where item: "item = (p, ds)" by (cases item)
  show ?case
  proof (cases ds)
    case None
    with item Cons show ?thesis by simp
  next
    case (Some d)
    show ?thesis
    proof (cases "staging_map c i p")
      case None
      with item Some Cons.prems show ?thesis by auto
    next
      case (Some fn)
      from staging_map_range [OF Some]
      have "fn \<in> staging_names c"
        using datasetfn_with_id_is_staging [of c p i] by (auto simp: staging_names_def)
      moreover from Cons.prems item \<open>ds = Some d\<close> Some
      have "write_items (staging_map c i) rest (Some (to_netcdf fn d fs)) = (r, a)"
        by simp
      from Cons.IH [OF this distinct_to_netcdf [OF Cons.prems(2)]]
      obtain fs' where "a = Some fs'" "distinct (map fst fs')"
        "file_names (to_netcdf fn d fs) \<subseteq> file_names fs'"
        "file_names fs' \<subseteq> file_names (to_netcdf fn d fs) \<union> staging_names c"
        by auto
      ultimately show ?thesis by (auto simp: names_to_netcdf)
    qed
  qed
qed

lemma write_data_names:
  assumes "write_data (staging_map c i) data (Some fs) = (r, a)"
    and "distinct (map fst fs)"
  shows "\<exists>fs'. a = Some fs' \<and> distinct (map fst fs')
           \<and> file_names fs \<subseteq> file_names fs'
           \<and> file_names fs' \<subseteq> file_names fs \<union> staging_names c"
proof (cases data)
  case PyNone
  with assms show ?thesis by auto
next
  case (PyList items)
  with assms write_items_names [of c i items fs r a] show ?thesis by simp
next
  case (PyGen items raised)
  obtain r1 a1 where w: "write_items (staging_map c i) items (Some fs) = (r1, a1)"
    by (cases "write_items (staging_map c i) items (Some fs)")
  with PyGen assms(1) have "a = a1" by (auto split: option.splits)
  with write_items_names [OF w assms(2)] show ?thesis by simp
qed

lemma cutout_do_task_names:
  assumes "cutout_do_task t True (Some fs) = (r, a)"
    and "staged c t"
    and "distinct (map fst fs)"
  shows "\<exists>fs'. a = Some fs' \<and> distinct (map fst fs')
           \<and> file_names fs \<subseteq> file_names fs'
           \<and> file_names fs' \<subseteq> file_names fs \<union> staging_names c"
proof -
  from assms(2) obtain i where i: "datasetfns t = Some (staging_map c i)"
    by (auto simp: staged_def)
  show ?thesis
  proof (cases "prepare_func t (kwargs t) None")
    case (Inl e)
    with assms(1,3) i show ?thesis by (auto simp: cutout_do_task_def)
  next
    case (Inr returned)
    obtain r1 a1 where
      w: "write_data (staging_map c i) (none_to_empty returned) (Some fs) = (r1, a1)"
      by (cases "write_data (staging_map c i) (none_to_empty returned) (Some fs)")
    with Inr assms(1) i have "a = a1"
      by (auto simp: cutout_do_task_def split: option.splits)
    with write_data_names [OF w assms(3)] show ?thesis by simp
  qed
qed

lemma run_tasks_names:
  assumes "run_tasks ts (Some fs) = (r, a)"
    and "\<forall>t \<in> set ts. staged c t"
    and "distinct (map fst fs)"
  shows "\<exists>fs'. a = Some fs' \<and> distinct (map fst fs')
           \<and> file_names fs \<subseteq> file_names fs'
           \<and> file_names fs' \<subseteq> file_names fs \<union> staging_names c"
  using assms
proof (induction ts arbitrary: fs)
  case Nil
  then show ?case by auto
next
  case (Cons t ts)
  obtain r1 a1 where run: "cutout_do_task t True (Some fs) = (r1, a1)"
    by (cases "cutout_do_task t True (Some fs)")
  from Cons.prems(2) have st: "staged c t" by simp
  from cutout_do_task_names [OF run st Cons.prems(3)]
  obtain fs1 where fs1: "a1 = Some fs1" "distinct (map fst fs1)"
    "file_names fs \<subseteq> file_names fs1" "file_names fs1 \<subseteq> file_names fs \<union> staging_names c"
    by auto
  show ?case
  proof (cases r1)
    case (Inl e)
    with run Cons.prems(1) fs1 show ?thesis by auto
  next
    case (Inr v)
    with run Cons.prems(1) fs1 have "run_tasks ts (Some fs1) = (r, a)" by simp
    from Cons.IH [OF this _ fs1(2)] Cons.prems(2)
    obtain fs' where "a = Some fs'" "distinct (map fst fs')"
      "file_names fs1 \<subseteq> file_names fs'" "file_names fs' \<subseteq> file_names fs1 \<union> staging_names c"
      by auto
    with fs1 show ?thesis by auto
  qed
qed

lemma names_separateD:
  assumes "names_separate c" and "p \<in> set (yearmonths c)"
  shows "\<not> is_staging_of (datasetfn c (Some p)) (datasetfn c None)"
    and "q \<in> set (yearmonths c) \<Longrightarrow> \<not> is_staging_of (datasetfn c (Some p)) (datasetfn c (Some q))"
  using assms by (auto simp: names_separate_def list_all_iff)

lemma merge_periods_step:
  assumes run: "merge_periods ext c g h (ym # yms) fs = (None, fs')"
    and dist: "distinct (map fst fs)"
    and self: "\<not> is_staging_of (datasetfn c (Some ym)) (datasetfn c (Some ym))"
  shows "\<exists>fs1. merge_periods ext c g h yms fs1 = (None, fs')
           \<and> distinct (map fst fs1)
           \<and> file_names fs1
               = insert (datasetfn c (Some ym))
                   (file_names fs - {n. is_staging_of (datasetfn c (Some ym)) n})
           \<and> (\<exists>n \<in> file_names fs. is_staging_of (datasetfn c (Some ym)) n)"
proof -
  let ?f = "datasetfn c (Some ym)"
  obtain base ex where sp: "splitext ?f = (base, ex)"
    by (cases "splitext ?f")
  let ?fns = "glob base ex fs"
  have G: "set ?fns = {n \<in> file_names fs. is_staging_of ?f n}"
    by (rule set_glob [OF sp])
  have notin: "?f \<notin> set ?fns"
    using G self by simp
  show ?thesis
  proof (cases "length ?fns = 1 \<and> \<not> g")
    case True
    then obtain src where src: "?fns = [src]"
      by (cases ?fns) auto
    with G have srcin: "src \<in> file_names fs" and srcst: "is_staging_of ?f src"
      by auto
    from src notin have ne: "src \<noteq> ?f" by auto
    from src G have Geq: "{n \<in> file_names fs. is_staging_of ?f n} = {src}" by simp
    have next_run: "merge_periods ext c g h yms (rename src ?f fs) = (None, fs')"
      using run sp True src by (simp add: Let_def)
    have "file_names (rename src ?f fs) = insert ?f (file_names fs - {src})"
      by (rule names_rename [OF srcin ne])
    also have "\<dots> = insert ?f (file_names fs - {n. is_staging_of ?f n})"
      using Geq by auto
    finally show ?thesis
      using next_run distinct_rename [OF dist, of src ?f] srcin srcst by blast
  next
    case False
    from run sp False obtain ds where
      op: "open_mfdataset ext (contents fs ?fns) = Inr ds"
      by (auto simp: Let_def split: sum.splits)
    let ?ds = "case (g, h) of (True, Some hh) \<Rightarrow> assign_height ext ds hh | _ \<Rightarrow> ds"
    let ?fs1 = "fold unlink ?fns (to_netcdf ?f ?ds fs)"
    have next_run: "merge_periods ext c g h yms ?fs1 = (None, fs')"
      using run sp False op by (auto simp: Let_def split: if_splits)
    have d1: "distinct (map fst ?fs1)"
      by (intro distinct_fold_unlink distinct_to_netcdf dist)
    have "file_names ?fs1 = insert ?f (file_names fs) - set ?fns"
      by (simp add: names_fold_unlink names_to_netcdf)
    also have "\<dots> = insert ?f (file_names fs - {n. is_staging_of ?f n})"
      using G notin by auto
    finally have n1: "file_names ?fs1 = insert ?f (file_names fs - {n. is_staging_of ?f n})" .
    from op have "contents fs ?fns \<noteq> []"
      by (auto simp: open_mfdataset_def split: if_splits)
    then have "?fns \<noteq> []"
      by (auto simp: contents_def)
    then obtain n where "n \<in> set ?fns" by (cases ?fns) auto
    with G have "\<exists>n \<in> file_names fs. is_staging_of ?f n" by auto
    with next_run d1 n1 show ?thesis by blast
  qed
qed

lemma merge_periods_invariant:
  assumes "merge_periods ext c g h yms fs = (None, fs')"
    and "distinct (map fst fs)"
    and "names_separate c"
    and "set yms \<subseteq> set (yearmonths c)"
    and "D \<subseteq> (\<lambda>p. datasetfn c (Some p)) ` set (yearmonths c)"
    and "file_names fs \<subseteq> insert (datasetfn c None) D
           \<union> {n. \<exists>p \<in> set yms. is_staging_of (datasetfn c (Some p)) n}"
    and "D \<subseteq> file_names fs"
    and "\<forall>f \<in> D. \<forall>n \<in> file_names fs. \<not> is_staging_of f n"
    and "datasetfn c None \<in> file_names fs"
  shows "distinct (map fst fs')
         \<and> file_names fs' = insert (datasetfn c None) D \<union> (\<lambda>p. datasetfn c (Some p)) ` set yms
         \<and> distinct (map (\<lambda>p. datasetfn c (Some p)) yms)
         \<and> (\<lambda>p. datasetfn c (Some p)) ` set yms \<inter> D = {}
         \<and> (\<forall>f \<in> D \<union> (\<lambda>p. datasetfn c (Some p)) ` set yms.
               \<forall>n \<in> file_names fs'. \<not> is_staging_of f n)"
  using assms
proof (induction yms arbitrary: fs D)
  case Nil
  then show ?case by auto
next
  case (Cons ym yms)
  let ?final = "\<lambda>p. datasetfn c (Some p)"
  let ?f = "?final ym"
  let ?meta = "datasetfn c None"
  from Cons.prems(4) have ymin: "ym \<in> set (yearmonths c)" by simp
  have sep: "\<And>p q. p \<in> set (yearmonths c) \<Longrightarrow> q \<in> set (yearmonths c)
               \<Longrightarrow> \<not> is_staging_of (?final p) (?final q)"
    using names_separateD(2) [OF Cons.prems(3)] by blast
  have sepm: "\<And>p. p \<in> set (yearmonths c) \<Longrightarrow> \<not> is_staging_of (?final p) ?meta"
    using names_separateD(1) [OF Cons.prems(3)] by blast
  from merge_periods_step [OF Cons.prems(1) Cons.prems(2) sep [OF ymin ymin]]
  obtain fs1 where
    run1: "merge_periods ext c g h yms fs1 = (None, fs')" and
    d1: "distinct (map fst fs1)" and
    n1: "file_names fs1 = insert ?f (file_names fs - {n. is_staging_of ?f n})" and
    some: "\<exists>n \<in> file_names fs. is_staging_of ?f n"
    by blast
  have fD: "?f \<notin> D"
    using some Cons.prems(8) by blast
  let ?D = "insert ?f D"
  have p4: "set yms \<subseteq> set (yearmonths c)"
    using Cons.prems(4) by simp
  have p5: "?D \<subseteq> ?final ` set (yearmonths c)"
    using Cons.prems(5) ymin by auto
  have p6: "file_names fs1 \<subseteq> insert ?meta ?D
              \<union> {n. \<exists>p \<in> set yms. is_staging_of (?final p) n}"
  proof
    fix n assume "n \<in> file_names fs1"
    with n1 have "n = ?f \<or> (n \<in> file_names fs \<and> \<not> is_staging_of ?f n)" by auto
    then show "n \<in> insert ?meta ?D \<union> {n. \<exists>p \<in> set yms. is_staging_of (?final p) n}"
    proof
      assume "n = ?f" then show ?thesis by simp
    next
      assume a: "n \<in> file_names fs \<and> \<not> is_staging_of ?f n"
      with Cons.prems(6) have "n \<in> insert ?meta D
          \<or> (\<exists>p \<in> set (ym # yms). is_staging_of (?final p) n)" by auto
      with a show ?thesis by auto
    qed
  qed
  have p7: "?D \<subseteq> file_names fs1"
  proof
    fix d assume "d \<in> ?D"
    then show "d \<in> file_names fs1"
    proof
      assume "d = ?f" with n1 show ?thesis by simp
    next
      assume dD: "d \<in> D"
      with Cons.prems(5) obtain q where q: "q \<in> set (yearmonths c)" "d = ?final q" by auto
      from sep [OF ymin q(1)] q(2) have "\<not> is_staging_of ?f d" by simp
      with dD Cons.prems(7) n1 show ?thesis by auto
    qed
  qed
  have p8: "\<forall>f \<in> ?D. \<forall>n \<in> file_names fs1. \<not> is_staging_of f n"
  proof (intro ballI)
    fix f' n assume f': "f' \<in> ?D" and n: "n \<in> file_names fs1"
    from f' p5 obtain p where p: "p \<in> set (yearmonths c)" "f' = ?final p" by auto
    from n n1 have "n = ?f \<or> (n \<in> file_names fs \<and> \<not> is_staging_of ?f n)" by auto
    then show "\<not> is_staging_of f' n"
    proof
      assume "n = ?f"
      with sep [OF p(1) ymin] p(2) show ?thesis by simp
    next
      assume a: "n \<in> file_names fs \<and> \<not> is_staging_of ?f n"
      from f' show ?thesis
      proof
        assume "f' = ?f" with a show ?thesis by simp
      next
        assume "f' \<in> D" with a Cons.prems(8) show ?thesis by blast
      qed
    qed
  qed
  have p9: "?meta \<in> file_names fs1"
    using n1 Cons.prems(9) sepm [OF ymin] by auto
  from Cons.IH [OF run1 d1 Cons.prems(3) p4 p5 p6 p7 p8 p9]
  have ih: "distinct (map fst fs')"
    "file_names fs' = insert ?meta ?D \<union> ?final ` set yms"
    "distinct (map ?final yms)"
    "?final ` set yms \<inter> ?D = {}"
    "\<forall>f \<in> ?D \<union> ?final ` set yms. \<forall>n \<in> file_names fs'. \<not> is_staging_of f n"
    by blast+
  from ih(4) have "?f \<notin> ?final ` set yms" by auto
  with ih(3) have c3: "distinct (map ?final (ym # yms))" by simp
  from ih(4) fD have c4: "?final ` set (ym # yms) \<inter> D = {}" by auto
  have eq: "insert ?meta ?D \<union> ?final ` set yms = insert ?meta D \<union> ?final ` set (ym # yms)"
    by auto
  have eq': "?D \<union> ?final ` set yms = D \<union> ?final ` set (ym # yms)"
    by auto
  show ?case
    using ih(1) ih(2) c3 c4 ih(5) unfolding eq eq' by blast
qed


lemma scheduled_subset: "set (scheduled p ts) \<subseteq> set ts"
  by (auto simp: scheduled_def completion_order_def)

lemma cutout_prepare_completed:
  assumes "cutout_prepare p ext c overwrite g w = Some (Inr None, w')"
  shows "\<exists>series tasks height fs1 fs'.
           weather_data_config c (config c) = Some series
           \<and> tasks_func series (yearmonths c) = Inr tasks
           \<and> run_tasks (scheduled p (with_datasetfns c tasks))
                (Some (to_netcdf (datasetfn c None) (meta_clean c) [])) = (None, Some fs1)
           \<and> merge_periods ext c g height (yearmonths c) fs1 = (None, fs')
           \<and> archive w' = Some fs' \<and> prepared w'"
proof -
  from assms have ng: "\<not> (prepared w \<and> \<not> overwrite)"
    by (auto simp: cutout_prepare_def split: if_splits)
  obtain height where h: "(if g then map_sum id Some (gebco_height_result ext)
                           else Inr (meta_height w)) = Inr height"
    using assms ng by (cases "if g then map_sum id Some (gebco_height_result ext)
                               else Inr (meta_height w)")
                      (auto simp: cutout_prepare_def)
  obtain series where s: "weather_data_config c (config c) = Some series"
    using assms ng h by (cases "weather_data_config c (config c)")
                        (auto simp: cutout_prepare_def Let_def)
  obtain tasks where t: "tasks_func series (yearmonths c) = Inr tasks"
    using assms ng h s by (cases "tasks_func series (yearmonths c)")
                          (auto simp: cutout_prepare_def Let_def)
  let ?fs0 = "to_netcdf (datasetfn c None) (meta_clean c) []"
  let ?ts = "scheduled p (with_datasetfns c tasks)"
  obtain r a where run: "run_tasks ?ts (Some ?fs0) = (r, a)"
    by (cases "run_tasks ?ts (Some ?fs0)")
  have st: "\<forall>t \<in> set ?ts. staged c t"
    using with_datasetfns_staged [of _ c tasks] scheduled_subset [of p "with_datasetfns c tasks"]
    by auto
  have d0: "distinct (map fst ?fs0)"
    by (simp add: to_netcdf_def)
  from run_tasks_names [OF run st d0] obtain fs1 where a: "a = Some fs1"
    by blast
  have r: "r = None"
  proof (cases r)
    case None
    then show ?thesis .
  next
    case (Some e)
    with assms ng h s t run show ?thesis
      by (cases "unpickle p e") (auto simp: cutout_prepare_def Let_def pool_map_def)
  qed
  obtain r2 fs' where m: "merge_periods ext c g height (yearmonths c) fs1 = (r2, fs')"
    by (cases "merge_periods ext c g height (yearmonths c) fs1")
  from assms ng h s t run a r m have "r2 = None \<and> archive w' = Some fs' \<and> prepared w'"
    by (cases r2) (auto simp: cutout_prepare_def Let_def pool_map_def)
  with s t run a r m show ?thesis by blast
qed

text \<open>
  C3. When \<open>cutout_prepare\<close> runs to its end (it returns \<open>None\<close>), whatever the order in
  which the pool completed the tasks, and \<open>datasetfn\<close> gives names without \<open>glob\<close>
  metacharacters that keep final names and staging names apart, the directory holds the
  metadata file and the final file of every period and nothing else: the final names of
  the periods are pairwise different, each is present once, and no file with the form of a
  staging file of any period is left, however many tasks wrote staging files for a period.
\<close>

theorem cutout_prepare_final_files:
  assumes "cutout_prepare p ext c overwrite gebco_height w = Some (Inr None, w')"
    and "names_separate c"
    and "names_literal c"
  shows "\<exists>fs. archive w' = Some fs
           \<and> distinct (map fst fs)
           \<and> file_names fs
               = insert (datasetfn c None) ((\<lambda>ym. datasetfn c (Some ym)) ` set (yearmonths c))
           \<and> distinct (map (\<lambda>ym. datasetfn c (Some ym)) (yearmonths c))
           \<and> (\<forall>ym \<in> set (yearmonths c). \<forall>n \<in> file_names fs.
                 \<not> is_staging_of (datasetfn c (Some ym)) n)"
proof -
  let ?meta = "datasetfn c None"
  let ?fs0 = "to_netcdf ?meta (meta_clean c) []"
  from cutout_prepare_completed [OF assms(1)]
  obtain series tasks height fs1 fs' where
    pool: "run_tasks (scheduled p (with_datasetfns c tasks)) (Some ?fs0) = (None, Some fs1)" and
    merge: "merge_periods ext c gebco_height height (yearmonths c) fs1 = (None, fs')" and
    arch: "archive w' = Some fs'"
    by blast
  have d0: "distinct (map fst ?fs0)"
    by (simp add: to_netcdf_def)
  have n0: "file_names ?fs0 = {?meta}"
    by (simp add: to_netcdf_def file_names_def)
  have st: "\<forall>t \<in> set (scheduled p (with_datasetfns c tasks)). staged c t"
    using with_datasetfns_staged [of _ c tasks] scheduled_subset [of p "with_datasetfns c tasks"]
    by auto
  from run_tasks_names [OF pool st d0] n0
  have d1: "distinct (map fst fs1)"
    and lo: "?meta \<in> file_names fs1"
    and hi: "file_names fs1 \<subseteq> {?meta} \<union> staging_names c"
    by auto
  have i6: "file_names fs1 \<subseteq> insert ?meta {}
              \<union> {n. \<exists>p \<in> set (yearmonths c). is_staging_of (datasetfn c (Some p)) n}"
    using hi by (auto simp: staging_names_def)
  from merge_periods_invariant [OF merge d1 assms(2) subset_refl _ i6 _ _ lo, of]
  have "distinct (map fst fs')
        \<and> file_names fs' = insert ?meta {} \<union> (\<lambda>p. datasetfn c (Some p)) ` set (yearmonths c)
        \<and> distinct (map (\<lambda>p. datasetfn c (Some p)) (yearmonths c))
        \<and> (\<lambda>p. datasetfn c (Some p)) ` set (yearmonths c) \<inter> {} = {}
        \<and> (\<forall>f \<in> {} \<union> (\<lambda>p. datasetfn c (Some p)) ` set (yearmonths c).
              \<forall>n \<in> file_names fs'. \<not> is_staging_of f n)"
    by simp
  with arch show ?thesis by auto
qed

lemma example_is_staging:
  "is_staging_of ''201101.nc'' n = glob_match ''201101'' ''.nc'' n"
  "is_staging_of ''201102.nc'' n = glob_match ''201102'' ''.nc'' n"
  by (simp_all add: is_staging_of_def example_splitext)

lemma example_names_separate: "names_separate (example_cutout cfg)"
  by (simp add: names_separate_def example_cutout_fields example_final_names
        example_is_staging glob_match_def)

lemma example_names_literal: "names_literal (example_cutout cfg)"
  by (simp add: names_literal_def example_cutout_fields example_final_names glob_magic_def)

lemma example_pool_paired:
  "run_tasks
     [example_task (Inr (PyGen [((2011, 1), Some 10), ((2011, 2), Some 20)] None))
        \<lparr>datasetfns := Some (staging_map (example_cutout ''paired'') (Suc 0))\<rparr>,
      example_task (Inr (PyList [((2011, 1), Some 3), ((2011, 2), Some 4)]))
        \<lparr>datasetfns := Some (staging_map (example_cutout ''paired'') 0)\<rparr>]
     (Some [(''meta.nc'', 0)])
   = (None, Some [(''meta.nc'', 0), (''201101-1.nc'', 10), (''201102-1.nc'', 20),
                  (''201101-0.nc'', 3), (''201102-0.nc'', 4)])"
  by (simp add: cutout_do_task_def example_task_def example_staging_names example_format
        to_netcdf_def)

lemma example_glob_paired:
  "glob ''201101'' ''.nc''
     [(''meta.nc'', 0::nat), (''201101-1.nc'', 10), (''201102-1.nc'', 20),
      (''201101-0.nc'', 3), (''201102-0.nc'', 4)]
   = [''201101-1.nc'', ''201101-0.nc'']"
  "glob ''201102'' ''.nc''
     [(''meta.nc'', 0::nat), (''201102-1.nc'', 20), (''201102-0.nc'', 4), (''201101.nc'', 13)]
   = [''201102-1.nc'', ''201102-0.nc'']"
  by (simp_all add: glob_def glob_match_def)

lemma example_merge_paired:
  "merge_periods example_externals (example_cutout ''paired'') False None [(2011, 1), (2011, 2)]
     [(''meta.nc'', 0), (''201101-1.nc'', 10), (''201102-1.nc'', 20),
      (''201101-0.nc'', 3), (''201102-0.nc'', 4)]
   = (None, [(''meta.nc'', 0), (''201101.nc'', 13), (''201102.nc'', 24)])"
  by (simp add: example_cutout_fields example_final_names example_splitext example_glob_paired
        contents_def open_mfdataset_def example_externals_def to_netcdf_def unlink_def)

lemma example_prepare_paired:
  "cutout_prepare (example_pool [1, 0]) example_externals (example_cutout ''paired'') True False
     (example_world False)
   = Some (Inr None,
           \<lparr>archive = Some [(''meta.nc'', 0), (''201101.nc'', 13), (''201102.nc'', 24)],
            prepared = True, meta_height = None\<rparr>)"
  by (simp add: cutout_prepare_def example_world_def example_cutout_fields example_config_def
        example_final_names to_netcdf_def pool_map_def with_datasetfns_def enumerate_two
        example_scheduled example_pool_paired example_merge_paired
        del: merge_periods.simps run_tasks.simps)

theorem cutout_prepare_final_files_witness:
  "cutout_prepare (example_pool [1, 0]) example_externals (example_cutout ''paired'') True False
     (example_world False)
   = Some (Inr None,
           \<lparr>archive = Some [(''meta.nc'', 0), (''201101.nc'', 13), (''201102.nc'', 24)],
            prepared = True, meta_height = None\<rparr>)
   \<and> file_names [(''meta.nc'', 0::nat), (''201101.nc'', 13), (''201102.nc'', 24)]
       = {''meta.nc'', ''201101.nc'', ''201102.nc''}
   \<and> \<not> is_staging_of ''201101.nc'' ''201102.nc''"
proof -
  from cutout_prepare_final_files
         [OF example_prepare_paired example_names_separate example_names_literal]
  have apart: "\<not> is_staging_of ''201101.nc'' ''201102.nc''"
    by (auto simp: example_cutout_fields example_final_names file_names_def)
  have names: "file_names [(''meta.nc'', 0::nat), (''201101.nc'', 13), (''201102.nc'', 24)]
               = {''meta.nc'', ''201101.nc'', ''201102.nc''}"
    by (auto simp: file_names_def)
  from example_prepare_paired names apart show ?thesis by blast
qed

section \<open>Calendar\<close>

lemma div_pred:
  assumes "0 < n"
  shows "(y::int) div n = (y - 1) div n + (if y mod n = 0 then 1 else 0)"
proof (cases "y mod n = 0")
  case True
  have "y = n * (y div n) + y mod n" by simp
  with True have "y - 1 = n * (y div n - 1) + (n - 1)"
    by (simp add: algebra_simps)
  then have "(y - 1) div n = y div n - 1"
    by (rule int_div_pos_eq) (use assms in simp_all)
  with True show ?thesis by simp
next
  case False
  have pos: "0 \<le> y mod n" and lt: "y mod n < n"
    using assms by simp_all
  have "y = n * (y div n) + y mod n" by simp
  then have "y - 1 = n * (y div n) + (y mod n - 1)"
    by simp
  then have "(y - 1) div n = y div n"
    by (rule int_div_pos_eq) (use False pos lt in simp_all)
  with False show ?thesis by simp
qed

lemma mod_400_100: "(y::int) mod 400 = 0 \<Longrightarrow> y mod 100 = 0"
proof -
  assume "y mod 400 = 0"
  then have "400 dvd y" by (simp add: mod_eq_0_iff_dvd)
  moreover have "(100::int) dvd 400" by simp
  ultimately have "100 dvd y" by (metis dvd_trans)
  then show ?thesis by (simp add: mod_eq_0_iff_dvd)
qed

lemma mod_100_4: "(y::int) mod 100 = 0 \<Longrightarrow> y mod 4 = 0"
proof -
  assume "y mod 100 = 0"
  then have "100 dvd y" by (simp add: mod_eq_0_iff_dvd)
  moreover have "(4::int) dvd 100" by simp
  ultimately have "4 dvd y" by (metis dvd_trans)
  then show ?thesis by (simp add: mod_eq_0_iff_dvd)
qed

lemma leap_count:
  fixes i4 i100 i400 :: int
  assumes "i4 = (if p4 then 1 else 0)" and "i100 = (if p100 then 1 else 0)"
    and "i400 = (if p400 then 1 else 0)" and "p400 \<Longrightarrow> p100" and "p100 \<Longrightarrow> p4"
  shows "i4 - i100 + i400 = (if p4 \<and> (\<not> p100 \<or> p400) then 1 else 0)"
  using assms by (cases p4; cases p100; cases p400) simp_all

lemma year_step:
  fixes y a4 a100 a400 b4 b100 b400 i :: int
  assumes "b4 = a4 + i4" and "b100 = a100 + i100" and "b400 = a400 + i400"
  shows "y * 365 + b4 - b100 + b400
         = (y - 1) * 365 + a4 - a100 + a400 + 365 + (i4 - i100 + i400)"
  using assms by (simp add: algebra_simps)

lemma days_before_year_Suc:
  "days_before_year (y + 1) = days_before_year y + (if isleap y then 366 else 365)"
proof -
  have a: "y div 4 = (y - 1) div 4 + (if y mod 4 = 0 then 1 else 0)"
    by (rule div_pred) simp
  have b: "y div 100 = (y - 1) div 100 + (if y mod 100 = 0 then 1 else 0)"
    by (rule div_pred) simp
  have c: "y div 400 = (y - 1) div 400 + (if y mod 400 = 0 then 1 else 0)"
    by (rule div_pred) simp
  have leap: "(if y mod 4 = 0 then 1 else 0) - (if y mod 100 = 0 then 1 else 0)
                + (if y mod 400 = 0 then 1 else (0::int))
              = (if isleap y then 1 else 0)"
    unfolding isleap_def
    by (rule leap_count [OF refl refl refl mod_400_100 mod_100_4])
  have "days_before_year (y + 1) = y * 365 + y div 4 - y div 100 + y div 400"
    unfolding days_before_year_def by (simp only: add_diff_cancel_right')
  also have "\<dots> = days_before_year y + 365 + (if isleap y then 1 else 0)"
    unfolding days_before_year_def leap [symmetric] by (rule year_step [OF a b c])
  also have "\<dots> = days_before_year y + (if isleap y then 366 else 365)"
    by simp
  finally show ?thesis .
qed

lemma days_before_year_mono:
  "y < y' \<Longrightarrow> days_before_year y + (if isleap y then 366 else 365) \<le> days_before_year y'"
proof (induction y' rule: int_gr_induct)
  case base
  show ?case by (simp add: days_before_year_Suc)
next
  case (step i)
  then have "days_before_year y + (if isleap y then 366 else 365) \<le> days_before_year i"
    by simp
  also have "\<dots> \<le> days_before_year (i + 1)"
    by (simp add: days_before_year_Suc)
  finally show ?case .
qed

lemma month_cases:
  "1 \<le> m \<Longrightarrow> m \<le> 12
     \<Longrightarrow> m = 1 \<or> m = 2 \<or> m = 3 \<or> m = 4 \<or> m = 5 \<or> m = 6 \<or> m = 7 \<or> m = 8 \<or> m = 9
         \<or> m = 10 \<or> m = 11 \<or> m = (12::int)"
  by arith

lemma days_in_month_bounds:
  "1 \<le> m \<Longrightarrow> m \<le> 12 \<Longrightarrow> 28 \<le> days_in_month y m \<and> days_in_month y m \<le> 31"
  using month_cases [of m] by (auto simp: days_in_month_def mdays_def)

lemma days_before_month_1: "days_before_month y 1 = 0"
  by (simp add: days_before_month_def)

lemma days_before_month_Suc:
  "1 \<le> m \<Longrightarrow> days_before_month y (m + 1) = days_before_month y m + days_in_month y m"
  by (simp add: days_before_month_def upto_rec2)

lemma days_before_month_mono:
  assumes "m \<le> m'" and "1 \<le> m" and "m' \<le> 13"
  shows "days_before_month y m \<le> days_before_month y m'"
  using assms
proof (induction m' rule: int_ge_induct)
  case base
  show ?case by simp
next
  case (step i)
  from step have "days_before_month y m \<le> days_before_month y i" by simp
  moreover from step have "days_before_month y (i + 1) = days_before_month y i + days_in_month y i"
    by (intro days_before_month_Suc) simp
  moreover from step have "0 \<le> days_in_month y i"
    using days_in_month_bounds [of i y] by simp
  ultimately show ?case by simp
qed

lemma upto_1_12: "[1..12] = [1, 2, 3, 4, 5, 6, 7, 8, 9, 10, 11, 12 :: int]"
  by code_simp

lemma sum_months:
  "sum_list (map (days_in_month y) [1, 2, 3, 4, 5, 6, 7, 8, 9, 10, 11, 12])
     = (if isleap y then 366 else 365)"
  by (simp add: days_in_month_def mdays_def)

lemma days_before_month_13:
  "days_before_month y 13 = (if isleap y then 366 else 365)"
proof -
  have "days_before_month y 13 = sum_list (map (days_in_month y) [1..12])"
    by (simp add: days_before_month_def)
  then show ?thesis
    by (simp only: upto_1_12 sum_months)
qed

lemma day_of_year_bounds:
  assumes "valid_date y m d"
  shows "1 \<le> days_before_month y m + d"
    and "days_before_month y m + d \<le> (if isleap y then 366 else 365)"
proof -
  from assms have m: "1 \<le> m" "m \<le> 12" and d: "1 \<le> d" "d \<le> days_in_month y m"
    by (simp_all add: valid_date_def)
  have "0 \<le> days_before_month y m"
    using days_before_month_mono [of 1 m y] m by (simp add: days_before_month_1)
  with d show "1 \<le> days_before_month y m + d" by simp
  have "days_before_month y m + d \<le> days_before_month y (m + 1)"
    using days_before_month_Suc [of m y] m d by simp
  also have "\<dots> \<le> days_before_month y 13"
    using days_before_month_mono [of "m + 1" 13 y] m by simp
  finally show "days_before_month y m + d \<le> (if isleap y then 366 else 365)"
    by (simp add: days_before_month_13)
qed

lemma ymd2ord_mono:
  assumes "valid_date y m d" and "valid_date y' m' d'"
    and "date_le (y, m, d) (y', m', d')"
  shows "ymd2ord y m d \<le> ymd2ord y' m' d'"
proof -
  from assms(3) consider "y < y'" | "y = y'" "m < m'" | "y = y'" "m = m'" "d \<le> d'"
    by (auto simp: date_le_def)
  then show ?thesis
  proof cases
    case 1
    from day_of_year_bounds(2) [OF assms(1)] days_before_year_mono [OF 1]
    have "days_before_year y + (days_before_month y m + d) \<le> days_before_year y'"
      by (simp split: if_splits)
    with day_of_year_bounds(1) [OF assms(2)] show ?thesis
      by (simp add: ymd2ord_def)
  next
    case 2
    from assms(1,2) have m: "1 \<le> m" "m' \<le> 12" and d: "d \<le> days_in_month y m" "1 \<le> d'"
      by (simp_all add: valid_date_def)
    have "days_before_month y m + d \<le> days_before_month y (m + 1)"
      using days_before_month_Suc [of m y] m d by simp
    also have "\<dots> \<le> days_before_month y m'"
      using days_before_month_mono [of "m + 1" m' y] m 2 by simp
    finally show ?thesis using 2 d by (simp add: ymd2ord_def)
  next
    case 3
    then show ?thesis by (simp add: ymd2ord_def)
  qed
qed

lemma day_ns_pos: "0 < day_ns"
  by (simp add: day_ns_def hour_ns_def)

lemma midnight_mono:
  assumes "valid_date y m d" and "valid_date y' m' d'"
    and "date_le (y, m, d) (y', m', d')"
  shows "midnight y m d \<le> midnight y' m' d'"
  unfolding midnight_def
  using ymd2ord_mono [OF assms] day_ns_pos by (simp add: mult_right_mono)

lemma day_range_set:
  "set (day_range a b) = {o' * day_ns | o'. a \<le> o' \<and> o' \<le> b}"
proof
  show "set (day_range a b) \<subseteq> {o' * day_ns | o'. a \<le> o' \<and> o' \<le> b}"
  proof
    fix t assume "t \<in> set (day_range a b)"
    then obtain k where k: "k < nat (b - a + 1)" "t = a * day_ns + int k * day_ns"
      by (auto simp: day_range_def)
    then have "t = (a + int k) * day_ns" by (simp add: algebra_simps)
    moreover from k have "a \<le> a + int k" "a + int k \<le> b" by auto
    ultimately show "t \<in> {o' * day_ns | o'. a \<le> o' \<and> o' \<le> b}" by blast
  qed
  show "{o' * day_ns | o'. a \<le> o' \<and> o' \<le> b} \<subseteq> set (day_range a b)"
  proof
    fix t assume "t \<in> {o' * day_ns | o'. a \<le> o' \<and> o' \<le> b}"
    then obtain o' where o': "t = o' * day_ns" "a \<le> o'" "o' \<le> b" by blast
    then have "nat (o' - a) < nat (b - a + 1)" by auto
    moreover from o' have "t = a * day_ns + int (nat (o' - a)) * day_ns"
      by (simp add: algebra_simps)
    ultimately show "t \<in> set (day_range a b)"
      unfolding day_range_def by (auto intro!: image_eqI [where x = "nat (o' - a)"])
  qed
qed

lemma day_range_distinct: "distinct (day_range a b)"
proof -
  have "inj (\<lambda>k. a * day_ns + int k * day_ns)"
    using day_ns_pos by (auto simp: inj_on_def)
  then show ?thesis
    unfolding day_range_def by (simp add: distinct_map inj_on_def)
qed

lemma day_range_step:
  "Suc i < length (day_range a b) \<Longrightarrow> day_range a b ! Suc i = day_range a b ! i + day_ns"
  by (simp add: day_range_def algebra_simps)

lemma day_range_ends:
  assumes "a \<le> b"
  shows "hd (day_range a b) = a * day_ns" and "last (day_range a b) = b * day_ns"
proof -
  from assms have n: "0 < nat (b - a + 1)" by simp
  then have ne: "[0..<nat (b - a + 1)] \<noteq> []" by simp
  show "hd (day_range a b) = a * day_ns"
    unfolding day_range_def using n by (simp add: hd_map ne upt_conv_Cons)
  have "last (day_range a b) = a * day_ns + int (nat (b - a + 1) - 1) * day_ns"
    unfolding day_range_def using ne by (simp add: last_map)
  also have "int (nat (b - a + 1) - 1) = b - a" using assms by simp
  finally show "last (day_range a b) = b * day_ns" by (simp add: algebra_simps)
qed

lemma count_list_distinct:
  "distinct xs \<Longrightarrow> x \<in> set xs \<Longrightarrow> count_list xs x = 1"
  by (induction xs) (auto simp: count_list_0_iff)

section \<open>Metadata resolver: too few time samples\<close>

lemma time_axis_daily_few:
  "length ts < 2
     \<Longrightarrow> time_axis ''daily'' ts years months y1 m1
         = Inl (IndexError (''index '' @ format_nat (length ts)
                            @ '' is out of bounds for axis 0 with size ''
                            @ format_nat (length ts)))"
  by (simp add: time_axis_def first_second_last_def)

lemma then_do_fails: "(\<And>x. \<exists>e. f x = Inl e) \<Longrightarrow> \<exists>e. then_do r f = Inl e"
  by (cases r) simp_all

text \<open>
  With the granularity \<open>daily\<close>, a probe that returns fewer than two time samples makes
  \<open>cutout_get_meta\<close> fail whatever the other arguments are: no dataset is returned.
\<close>

lemma cutout_get_meta_few_samples_fails:
  assumes "prepare_lat_direction lat_direction ys = Inr ys'"
    and "meta_prepare_func kwds = Some probe"
    and "file_granularity kwds = Some ''daily''"
    and "months = (case months_arg of
                     None \<Rightarrow> \<lparr>start = Some 1, stop = Some 12, step = None\<rparr>
                   | Some m \<Rightarrow> m)"
    and "probe xs ys' (stop years) (stop months) = Inr ds"
    and "length (time ds) < 2"
  shows "\<exists>e. cutout_get_meta lat_direction kwds xs ys years months_arg = Inl e"
proof -
  let ?axis = "\<lambda>y m. time_axis ''daily'' (time ds) years months y m"
  have axis: "\<And>y m f. \<exists>e. then_do (?axis y m) f = Inl e"
    using time_axis_daily_few [OF assms(6)] by simp
  have inner: "\<And>y m. \<exists>e. then_do (py_range (start years) (stop years))
                 (\<lambda>ys_coord. then_do (py_range (start months) (stop months))
                    (\<lambda>ms_coord. then_do (?axis y m)
                       (\<lambda>ts_coord. Inr (ds\<lparr>time := ts_coord, year := ys_coord,
                                           month := ms_coord,
                                           year_month := List.product ys_coord ms_coord\<rparr>))))
               = Inl e"
    by (intro then_do_fails axis)
  show ?thesis
  proof (cases "has_tasks_func kwds")
    case False
    with assms(1) show ?thesis
      by (simp add: cutout_get_meta_def)
  next
    case True
    show ?thesis
    proof (cases "year_month_of (stop years) (stop months)")
      case (Inl e)
      with True assms(1-5) show ?thesis
        by (simp add: cutout_get_meta_def Let_def)
    next
      case (Inr ym)
      obtain y m where ym: "ym = (y, m)" by (cases ym)
      from inner [of y m] obtain e where
        "then_do (py_range (start years) (stop years))
           (\<lambda>ys_coord. then_do (py_range (start months) (stop months))
              (\<lambda>ms_coord. then_do (?axis y m)
                 (\<lambda>ts_coord. Inr (ds\<lparr>time := ts_coord, year := ys_coord,
                                     month := ms_coord,
                                     year_month := List.product ys_coord ms_coord\<rparr>))))
         = Inl e" by blast
      with True Inr ym assms(1-5) show ?thesis
        by (simp add: cutout_get_meta_def Let_def)
    qed
  qed
qed

text \<open>
  C7. With the granularity \<open>daily\<close>, the one that infers the step from the first two
  samples, and a request the resolver accepts (\<open>tasks_func\<close> is configured, \<open>years.stop\<close>
  and \<open>months.stop\<close> name a month, the starts are integers), a probe that returns fewer
  than two time samples makes \<open>cutout_get_meta\<close> fail with the \<open>IndexError\<close> of reading
  the samples at positions 0, 1 and -1. The module defines no exception class of its own:
  this failure of the step inference is what the specification calls
  \<open>SchemaInferenceError\<close>.
\<close>

theorem cutout_get_meta_too_few_samples:
  assumes "prepare_lat_direction lat_direction ys = Inr ys'"
    and "has_tasks_func kwds"
    and "meta_prepare_func kwds = Some probe"
    and "file_granularity kwds = Some ''daily''"
    and "months = (case months_arg of
                     None \<Rightarrow> \<lparr>start = Some 1, stop = Some 12, step = None\<rparr>
                   | Some m \<Rightarrow> m)"
    and "probe xs ys' (stop years) (stop months) = Inr ds"
    and "year_month_of (stop years) (stop months) = Inr (y1, m1)"
    and "start years = Some y0" and "start months = Some m0"
    and "length (time ds) < 2"
  shows "cutout_get_meta lat_direction kwds xs ys years months_arg
         = Inl (IndexError (''index '' @ format_nat (length (time ds))
                            @ '' is out of bounds for axis 0 with size ''
                            @ format_nat (length (time ds))))"
proof -
  from assms(7) obtain a b where "stop years = Some a" "stop months = Some b"
    by (auto simp: year_month_of_def split: option.splits)
  with assms(1-9) time_axis_daily_few [OF assms(10)] show ?thesis
    by (simp add: cutout_get_meta_def Let_def py_range_def)
qed

lemma example_year_month_of:
  "year_month_of (Some 2011) (Some 12) = Inr (2011, 12)"
  "year_month_of (Some 2011) (Some 1) = Inr (2011, 1)"
  "year_month_of (Some 2011) (Some 2) = Inr (2011, 2)"
  by code_simp+

lemma example_lat: "prepare_lat_direction True example_ys = Inr example_ys"
  by (simp add: prepare_lat_direction_def example_ys_def)

theorem cutout_get_meta_too_few_samples_witness:
  "cutout_get_meta True (example_kwds ''daily'' [634000000000000000000]) () example_ys
     example_years None
   = Inl (IndexError ''index 1 is out of bounds for axis 0 with size 1'')"
proof -
  let ?kw = "example_kwds ''daily'' [634000000000000000000]"
  let ?ds = "\<lparr>time = [634000000000000000000], year = [], month = [], year_month = [],
              attrs = ()\<rparr> :: unit meta"
  let ?months = "\<lparr>start = Some 1, stop = Some 12, step = None\<rparr> :: int slice"
  have 1: "prepare_lat_direction True example_ys = Inr example_ys"
    by (rule example_lat)
  have 2: "has_tasks_func ?kw"
    by (simp add: example_kwds_def)
  have 3: "meta_prepare_func ?kw = Some (\<lambda>xs ys y m. Inr ?ds)"
    by (simp add: example_kwds_def)
  have 4: "file_granularity ?kw = Some ''daily''"
    by (simp add: example_kwds_def)
  have 5: "?months = (case None of None \<Rightarrow> \<lparr>start = Some 1, stop = Some 12, step = None\<rparr>
                      | Some m \<Rightarrow> m)"
    by simp
  have 6: "(\<lambda>xs ys y m. Inr ?ds) () example_ys (stop example_years) (stop ?months) = Inr ?ds"
    by simp
  have 7: "year_month_of (stop example_years) (stop ?months) = Inr (2011, 12)"
    by (simp add: example_years_def example_year_month_of)
  have 8: "start example_years = Some 2011"
    by (simp add: example_years_def)
  have 9: "start ?months = Some 1"
    by simp
  have 10: "length (time ?ds) < 2"
    by simp
  have fmt: "format_nat (Suc 0) = ''1''"
    by code_simp
  from cutout_get_meta_too_few_samples [OF 1 2 3 4 5 6 7 8 9 10]
  show ?thesis
    by (simp add: fmt)
qed

section \<open>Metadata resolver: daily means\<close>

lemma date_range_days:
  "date_range (a * day_ns) (b * day_ns) day_ns = Inr (day_range a b)"
proof -
  have "b * day_ns - a * day_ns = (b - a) * day_ns"
    by (simp add: algebra_simps)
  moreover have "(b - a) * day_ns div day_ns = b - a"
    using day_ns_pos by simp
  ultimately have "(b * day_ns - a * day_ns) div day_ns = b - a"
    by (simp only:)
  with day_ns_pos show ?thesis
    by (simp add: date_range_def day_range_def)
qed

lemma year_month_ofD:
  assumes "year_month_of y m = Inr (y', m')"
  shows "y = Some y'" and "m = Some m'" and "1 \<le> m'" and "m' \<le> 12"
  using assms
  by (auto simp: year_month_of_def split: option.splits if_splits)

lemma time_axis_dailymeans:
  assumes "year_month_of (start years) (start months) = Inr (y0, m0)"
    and "in_bounds (midnight y1 m1 (days_in_month y1 m1))"
  shows "time_axis ''dailymeans'' ts years months y1 m1
         = Inr (day_range (ymd2ord y0 m0 1) (ymd2ord y1 m1 (days_in_month y1 m1)))"
  using assms date_range_days [of "ymd2ord y0 m0 1" "ymd2ord y1 m1 (days_in_month y1 m1)"]
  by (simp add: time_axis_def checked_def midnight_def)

lemma first_of_month_valid: "1 \<le> m \<Longrightarrow> m \<le> 12 \<Longrightarrow> valid_date y m 1"
  using days_in_month_bounds [of m y] by (simp add: valid_date_def)

lemma last_of_month_valid: "1 \<le> m \<Longrightarrow> m \<le> 12 \<Longrightarrow> valid_date y m (days_in_month y m)"
  using days_in_month_bounds [of m y] by (simp add: valid_date_def)

text \<open>
  C8. With the granularity \<open>dailymeans\<close>, for \<open>years.start\<close>, \<open>months.start\<close> naming the
  month \<open>m0\<close> of year \<open>y0\<close> and \<open>years.stop\<close>, \<open>months.stop\<close> the month \<open>m1\<close> of year
  \<open>y1\<close> (the last day of which is in the range of timestamps), \<open>cutout_get_meta\<close>
  returns a dataset whose time axis is the midnights from the first day of the start
  month to the last day of the end month: no timestamp occurs twice, consecutive
  timestamps are one day apart, every calendar day from the first day of the start month
  to the last day of the end month occurs exactly once, every timestamp is a midnight
  between the two, and when the start month is not after the end month the axis begins
  on the first day of the start month and ends on the last day of the end month.
\<close>

theorem cutout_get_meta_dailymeans:
  assumes "prepare_lat_direction lat_direction ys = Inr ys'"
    and "has_tasks_func kwds"
    and "meta_prepare_func kwds = Some probe"
    and "file_granularity kwds = Some ''dailymeans''"
    and "months = (case months_arg of
                     None \<Rightarrow> \<lparr>start = Some 1, stop = Some 12, step = None\<rparr>
                   | Some m \<Rightarrow> m)"
    and "probe xs ys' (stop years) (stop months) = Inr ds"
    and "year_month_of (start years) (start months) = Inr (y0, m0)"
    and "year_month_of (stop years) (stop months) = Inr (y1, m1)"
    and "in_bounds (midnight y1 m1 (days_in_month y1 m1))"
  shows "\<exists>r. cutout_get_meta lat_direction kwds xs ys years months_arg = Inr r
           \<and> time r = day_range (ymd2ord y0 m0 1) (ymd2ord y1 m1 (days_in_month y1 m1))
           \<and> distinct (time r)
           \<and> (\<forall>i. Suc i < length (time r) \<longrightarrow> time r ! Suc i = time r ! i + day_ns)
           \<and> (\<forall>y m d. valid_date y m d \<and> date_le (y0, m0, 1) (y, m, d)
                         \<and> date_le (y, m, d) (y1, m1, days_in_month y1 m1)
                  \<longrightarrow> count_list (time r) (midnight y m d) = 1)
           \<and> (\<forall>t \<in> set (time r). (\<exists>n. t = n * day_ns) \<and> midnight y0 m0 1 \<le> t
                                     \<and> t \<le> midnight y1 m1 (days_in_month y1 m1))
           \<and> (date_le (y0, m0, 1) (y1, m1, days_in_month y1 m1)
                \<longrightarrow> hd (time r) = midnight y0 m0 1
                    \<and> last (time r) = midnight y1 m1 (days_in_month y1 m1))"
proof -
  let ?a = "ymd2ord y0 m0 1"
  let ?b = "ymd2ord y1 m1 (days_in_month y1 m1)"
  let ?axis = "day_range ?a ?b"
  let ?r = "ds\<lparr>time := ?axis, year := [y0..y1], month := [m0..m1],
               year_month := List.product [y0..y1] [m0..m1]\<rparr>"
  note s = year_month_ofD [OF assms(7)] and e = year_month_ofD [OF assms(8)]
  have run: "cutout_get_meta lat_direction kwds xs ys years months_arg = Inr ?r"
    using assms(1-8) s(1,2) e(1,2) time_axis_dailymeans [OF assms(7) assms(9), of "time ds"]
    by (simp add: cutout_get_meta_def Let_def py_range_def)
  have axis: "time ?r = ?axis" by simp
  have v0: "valid_date y0 m0 1" using s by (intro first_of_month_valid)
  have v1: "valid_date y1 m1 (days_in_month y1 m1)" using e by (intro last_of_month_valid)
  have dist: "distinct ?axis" by (rule day_range_distinct)
  have stp: "\<forall>i. Suc i < length ?axis \<longrightarrow> ?axis ! Suc i = ?axis ! i + day_ns"
    using day_range_step by blast
  have once: "count_list ?axis (midnight y m d) = 1"
    if "valid_date y m d" and "date_le (y0, m0, 1) (y, m, d)"
      and "date_le (y, m, d) (y1, m1, days_in_month y1 m1)" for y m d
  proof -
    from ymd2ord_mono [OF v0 that(1) that(2)] ymd2ord_mono [OF that(1) v1 that(3)]
    have "midnight y m d \<in> set ?axis"
      unfolding day_range_set midnight_def by blast
    with dist show ?thesis by (intro count_list_distinct)
  qed
  have within: "(\<exists>n. t = n * day_ns) \<and> midnight y0 m0 1 \<le> t
                  \<and> t \<le> midnight y1 m1 (days_in_month y1 m1)"
    if "t \<in> set ?axis" for t
  proof -
    from that obtain n where n: "t = n * day_ns" "?a \<le> n" "n \<le> ?b"
      unfolding day_range_set by blast
    with day_ns_pos show ?thesis
      unfolding midnight_def by (auto simp: mult_right_mono)
  qed
  have ends: "hd ?axis = midnight y0 m0 1 \<and> last ?axis = midnight y1 m1 (days_in_month y1 m1)"
    if "date_le (y0, m0, 1) (y1, m1, days_in_month y1 m1)"
    using day_range_ends [OF ymd2ord_mono [OF v0 v1 that]] by (simp add: midnight_def)
  show ?thesis
    apply (rule exI [of _ ?r])
    unfolding axis
    using run dist stp once within ends by blast
qed

lemma example_days:
  "ymd2ord 2011 1 1 = 734138"
  "ymd2ord 2011 2 28 = 734196"
  "days_in_month 2011 2 = 28"
  by code_simp+

lemma example_in_bounds: "in_bounds (midnight 2011 2 28)"
  by code_simp

lemma example_valid: "valid_date 2011 2 14"
  by code_simp

theorem cutout_get_meta_dailymeans_witness:
  "\<exists>r. cutout_get_meta True (example_kwds ''dailymeans'' []) () example_ys example_years
          (Some \<lparr>start = Some 1, stop = Some 2, step = None\<rparr>) = Inr r
       \<and> length (time r) = 59
       \<and> hd (time r) = midnight 2011 1 1
       \<and> last (time r) = midnight 2011 2 28
       \<and> count_list (time r) (midnight 2011 2 14) = 1"
proof -
  let ?kw = "example_kwds ''dailymeans'' []"
  let ?ds = "\<lparr>time = [], year = [], month = [], year_month = [], attrs = ()\<rparr> :: unit meta"
  let ?months = "\<lparr>start = Some 1, stop = Some 2, step = None\<rparr> :: int slice"
  have 1: "prepare_lat_direction True example_ys = Inr example_ys"
    by (rule example_lat)
  have 2: "has_tasks_func ?kw"
    by (simp add: example_kwds_def)
  have 3: "meta_prepare_func ?kw = Some (\<lambda>xs ys y m. Inr ?ds)"
    by (simp add: example_kwds_def)
  have 4: "file_granularity ?kw = Some ''dailymeans''"
    by (simp add: example_kwds_def)
  have 5: "?months = (case Some ?months of
                        None \<Rightarrow> \<lparr>start = Some 1, stop = Some 12, step = None\<rparr>
                      | Some m \<Rightarrow> m)"
    by simp
  have 6: "(\<lambda>xs ys y m. Inr ?ds) () example_ys (stop example_years) (stop ?months) = Inr ?ds"
    by simp
  have 7: "year_month_of (start example_years) (start ?months) = Inr (2011, 1)"
    by (simp add: example_years_def example_year_month_of)
  have 8: "year_month_of (stop example_years) (stop ?months) = Inr (2011, 2)"
    by (simp add: example_years_def example_year_month_of)
  have 9: "in_bounds (midnight 2011 2 (days_in_month 2011 2))"
    by (simp add: example_days example_in_bounds)
  from cutout_get_meta_dailymeans [OF 1 2 3 4 5 6 7 8 9]
  obtain r where
    run: "cutout_get_meta True ?kw () example_ys example_years (Some ?months) = Inr r" and
    axis: "time r = day_range (ymd2ord 2011 1 1) (ymd2ord 2011 2 (days_in_month 2011 2))" and
    once: "\<forall>y m d. valid_date y m d \<and> date_le (2011, 1, 1) (y, m, d)
                      \<and> date_le (y, m, d) (2011, 2, days_in_month 2011 2)
               \<longrightarrow> count_list (time r) (midnight y m d) = 1" and
    ends: "date_le (2011, 1, 1) (2011, 2, days_in_month 2011 2)
             \<longrightarrow> hd (time r) = midnight 2011 1 1
                 \<and> last (time r) = midnight 2011 2 (days_in_month 2011 2)"
    by blast
  have len: "length (time r) = 59"
    unfolding axis by (simp add: day_range_def example_days)
  have le1: "date_le (2011, 1, 1) (2011, 2, days_in_month 2011 2)"
    by (simp add: date_le_def)
  have mid: "valid_date 2011 2 14 \<and> date_le (2011, 1, 1) (2011, 2, 14)
             \<and> date_le (2011, 2, 14) (2011, 2, days_in_month 2011 2)"
    by (simp add: example_valid date_le_def example_days)
  from ends le1 have e: "hd (time r) = midnight 2011 1 1 \<and> last (time r) = midnight 2011 2 28"
    by (simp add: example_days)
  from once mid have c: "count_list (time r) (midnight 2011 2 14) = 1"
    by blast
  from run len e c show ?thesis by blast
qed

section \<open>Merge stage: what the combination accepts\<close>












end
